theory Spec2Isabelle
  imports Main "HOL-Library.Sublist"
begin

section \<open>Values exchanged with the protocol library\<close>

text \<open>
  The session broker of Drawpile (src/shared/server/session.cpp, client.cpp and
  src/shared/record/writer.cpp) is embedded as pure functions over an explicit session
  state. The client objects a session holds by pointer are the elements of its client
  list; a loop over \<^verbatim>\<open>m_clients\<close> is a fold over the indices of that list, so that a
  change made through one pointer is seen by every later step.
\<close>

subsection \<open>JSON\<close>

text \<open>
  \<^verbatim>\<open>QJsonObject\<close> as an association list, read by its first entry for a key. A JSON
  number is kept when it is whole (\<^verbatim>\<open>toInt\<close> answers the default 0 for every other
  number, and for one outside the range of a 32-bit int).
\<close>

datatype json =
    JNull
  | JBool bool
  | JNum int
  | JStr string
  | JArr "json list"
  | JObj "(string \<times> json) list"

type_synonym jobject = "(string \<times> json) list"

definition jcontains :: "jobject \<Rightarrow> string \<Rightarrow> bool" where
  "jcontains obj k = (map_of obj k \<noteq> None)"

definition jvalue :: "jobject \<Rightarrow> string \<Rightarrow> json" where
  "jvalue obj k = (case map_of obj k of None \<Rightarrow> JNull | Some v \<Rightarrow> v)"

fun toBool :: "json \<Rightarrow> bool" where
  "toBool (JBool b) = b"
| "toBool _ = False"

fun toInt :: "json \<Rightarrow> int" where
  "toInt (JNum n) = (if - 2147483648 \<le> n \<and> n \<le> 2147483647 then n else 0)"
| "toInt _ = 0"

fun toQString :: "json \<Rightarrow> string" where
  "toQString (JStr s) = s"
| "toQString _ = []"

subsection \<open>Numbers in texts\<close>

text \<open>\<^verbatim>\<open>QString::arg\<close> and \<^verbatim>\<open>QString::number\<close> on an integer: its decimal digits.\<close>

fun digits :: "nat \<Rightarrow> string" where
  "digits n = (if n < 10 then [''0123456789'' ! n]
               else digits (n div 10) @ [''0123456789'' ! (n mod 10)])"

declare digits.simps [simp del]

definition decimal :: "int \<Rightarrow> string" where
  "decimal i = (if i < 0 then CHR ''-'' # digits (nat (- i)) else digits (nat i))"

text \<open>A conversion to \<^verbatim>\<open>uint8_t\<close>, as lists of user ids and context ids store them.\<close>

definition u8 :: "int \<Rightarrow> int" where
  "u8 i = i mod 256"

subsection \<open>Log entries\<close>

text \<open>
  serverlog.h is not among the sources. A log entry carries a level, a topic, a text and
  the user it is about; the levels are taken in the order Error, Warn, Info, Debug, the
  one that the comparison \<^verbatim>\<open>entry.level() < Log::Level::Debug\<close> of \<^verbatim>\<open>Session::log\<close> and
  the query \<^verbatim>\<open>atleast(Log::Level::Info)\<close> of \<^verbatim>\<open>Session::joinUser\<close> presuppose.
\<close>

datatype Level = Error | Warn | Info | Debug

datatype Topic = RuleBreak | Status | Join | Leave | Op | Deop | Trust | Untrust | Kick

fun levelNum :: "Level \<Rightarrow> nat" where
  "levelNum Error = 0"
| "levelNum Warn = 1"
| "levelNum Info = 2"
| "levelNum Debug = 3"

record logentry =
  level :: Level
  topic :: Topic
  message :: string
  user :: "(int \<times> string) option"
  inSession :: bool

definition Log :: "Level \<Rightarrow> Topic \<Rightarrow> string \<Rightarrow> logentry" where
  "Log l t txt = \<lparr>level = l, topic = t, message = txt, user = None, inSession = False\<rparr>"

subsection \<open>Messages\<close>

datatype ReplyType =
  LOG | MESSAGE | ALERT | RESET | CATCHUP | SESSIONCONF | SIZELIMITWARNING | RESETREQUEST | STATUS

text \<open>
  The \<^verbatim>\<open>reply\<close> object of a \<^verbatim>\<open>ServerReply\<close>: its fields, or the log entry that
  \<^verbatim>\<open>Log::toJson\<close> renders (the rendering itself is not among the sources).
\<close>

datatype replydata = Fields jobject | LogData logentry

datatype DisconnectReason = KICK | ERROR | SHUTDOWN

text \<open>
  What a message is, by its type. \<^verbatim>\<open>Command\<close> is \<^verbatim>\<open>MSG_COMMAND\<close> in both directions:
  a reply the server builds from a \<^verbatim>\<open>ServerReply\<close>, or a command of a client (name,
  positional and keyword arguments). \<^verbatim>\<open>Filtered\<close> keeps the type and payload length
  of the message it wraps and, when this one decodes, its text. \<^verbatim>\<open>Other\<close> stands for
  the drawing commands and the meta messages the server does not look into.
\<close>

datatype body =
    ServerReply ReplyType string replydata
  | ServerCommand string "json list" jobject
  | Disconnect DisconnectReason string
  | UserJoin bool bool string string
  | UserLeave
  | SessionOwner "int list"
  | TrustedUsers "int list"
  | SoftReset
  | Chat bool string
  | PrivateChat int string
  | Interval int
  | Marker string
  | Filtered nat nat "string option"
  | UndoPoint
  | Other nat string

record msg =
  contextId :: int
  body :: body

definition Msg :: "int \<Rightarrow> body \<Rightarrow> msg" where
  "Msg ctx b = \<lparr>contextId = u8 ctx, body = b\<rparr>"

definition setContextId :: "int \<Rightarrow> msg \<Rightarrow> msg" where
  "setContextId i m = m\<lparr>contextId := u8 i\<rparr>"

definition makeLogMessage :: "logentry \<Rightarrow> msg" where
  "makeLogMessage l = Msg 0 (ServerReply LOG (message l) (LogData l))"


section \<open>The session history\<close>

text \<open>
  sessionhistory.h, its in-memory and on-disk implementations, the id queue and the ban
  list's code are not among the sources; the definitions of this section stand for them.
\<close>

datatype HFlag = Persistent | PreserveChat | Nsfm | Deputies

datatype Encoding = Binary | Text

record SessionBan =
  banId :: int
  banUsername :: string
  banExtAuthId :: string
  banIp :: string
  bannedBy :: string

record history =
  messages :: "msg list"
  firstIndex :: int
  lastIndex :: int
  sizeInBytes :: nat
  sizeLimit :: nat
  autoResetThreshold :: nat
  autoResetThresholdBase :: nat
  flags :: "HFlag set"
  title :: string
  maxUsers :: int
  passwordHash :: string
  opwordHash :: string
  authenticatedOperators :: bool
  opNames :: "string list"
  trustedNames :: "string list"
  idNames :: "(string \<times> int) list"
  reservedIds :: "int list"
  banlist :: "SessionBan list"
  announcements :: "string list"
  releasedBelow :: int

text \<open>
  What the message classes and the helpers of the protocol library answer: message.h,
  passwordhash.h and the history's threshold arithmetic are not among the sources, so
  every function of the session takes them as the parameter \<open>P\<close>.
\<close>

record ext =
  isCommand :: "msg \<Rightarrow> bool"
  isRecordable :: "msg \<Rightarrow> bool"
  msgLength :: "msg \<Rightarrow> nat"
  serialize :: "msg \<Rightarrow> string"
  toString :: "msg \<Rightarrow> string"
  dateString :: "int \<Rightarrow> string"
  hash :: "string \<Rightarrow> string"
  effectiveAutoResetThreshold :: "history \<Rightarrow> nat"
  banlistToJson :: "SessionBan list \<Rightarrow> bool \<Rightarrow> json"
  messageName :: "body \<Rightarrow> string"
  recordingHeader :: "Encoding \<Rightarrow> string"

text \<open>
  Modelled from the spec: \<^verbatim>\<open>SessionHistory::addMessage\<close>. The log is append-only and
  size-bounded: the cumulative retained byte size stays within the configured size limit,
  and exceeding it causes the append to fail. A limit of 0 is no limit, as in the tests
  \<^verbatim>\<open>sizeLimit()>0\<close> of session.cpp. A rejected append is \<open>None\<close>.
\<close>

definition addMessage :: "ext \<Rightarrow> msg \<Rightarrow> history \<Rightarrow> history option" where
  "addMessage P m h =
     (if sizeLimit h > 0 \<and> sizeInBytes h + msgLength P m > sizeLimit h then None
      else Some (h\<lparr>messages := messages h @ [m],
                    lastIndex := lastIndex h + 1,
                    sizeInBytes := sizeInBytes h + msgLength P m\<rparr>))"

text \<open>
  Modelled from the spec: \<^verbatim>\<open>SessionHistory::reset\<close>, which atomically replaces all prior
  history with the buffer; positions are never reused, so the new window starts behind the
  old last index. It answers false (here \<open>None\<close>) when the buffer is over the size limit,
  the case \<^verbatim>\<open>Session::switchState\<close> tests for.
\<close>

definition reset :: "ext \<Rightarrow> msg list \<Rightarrow> history \<Rightarrow> history option" where
  "reset P buf h =
     (if sizeLimit h > 0 \<and> sum_list (map (msgLength P) buf) > sizeLimit h then None
      else Some (h\<lparr>messages := buf,
                    firstIndex := lastIndex h + 1,
                    lastIndex := lastIndex h + int (length buf),
                    sizeInBytes := sum_list (map (msgLength P) buf)\<rparr>))"

text \<open>
  Modelled from the spec: \<^verbatim>\<open>getBatch(cursor)\<close> answers the retained messages behind the
  cursor and the new cursor, the last index.
\<close>

definition getBatch :: "history \<Rightarrow> int \<Rightarrow> msg list \<times> int" where
  "getBatch h after =
     (if after \<ge> lastIndex h then ([], lastIndex h)
      else (drop (nat (max 0 (after - firstIndex h + 1))) (messages h), lastIndex h))"

text \<open>
  Modelled from the spec: \<^verbatim>\<open>cleanupBatches(watermark)\<close> lets the log release what lies
  strictly below the watermark; the messages stay addressable, the watermark is recorded.
\<close>

definition cleanupBatches :: "int \<Rightarrow> history \<Rightarrow> history" where
  "cleanupBatches watermark h = h\<lparr>releasedBelow := watermark\<rparr>"


text \<open>
  Modelled from the spec: the operator and trust name sets, kept for re-authorization
  across reconnect by authenticated users.
\<close>

definition setAuthenticatedOperator :: "string \<Rightarrow> bool \<Rightarrow> history \<Rightarrow> history" where
  "setAuthenticatedOperator name op h =
     h\<lparr>opNames := (if op then List.insert name (opNames h) else removeAll name (opNames h))\<rparr>"

definition setAuthenticatedTrust :: "string \<Rightarrow> bool \<Rightarrow> history \<Rightarrow> history" where
  "setAuthenticatedTrust name t h =
     h\<lparr>trustedNames :=
         (if t then List.insert name (trustedNames h) else removeAll name (trustedNames h))\<rparr>"

text \<open>
  Modelled from the spec: the id-reservation queue (recently-freed numeric ids are not
  reused immediately).
\<close>

definition setIdForName :: "int \<Rightarrow> string \<Rightarrow> history \<Rightarrow> history" where
  "setIdForName i name h = h\<lparr>idNames := (name, i) # filter (\<lambda>e. fst e \<noteq> name) (idNames h)\<rparr>"

definition reserveId :: "int \<Rightarrow> history \<Rightarrow> history" where
  "reserveId i h = h\<lparr>reservedIds := reservedIds h @ [i]\<rparr>"

section \<open>Recording\<close>

text \<open>
  The \<^verbatim>\<open>QIODevice\<close> behind a writer: the chunks written so far, in order. A device that
  is \<open>failing\<close> refuses every write (it answers -1 and keeps nothing).
\<close>

record device =
  isOpen :: bool
  openable :: bool
  failing :: bool
  written :: "string list"

definition devWrite :: "string \<Rightarrow> device \<Rightarrow> int \<times> device" where
  "devWrite bytes d =
     (if failing d then (- 1, d) else (int (length bytes), d\<lparr>written := written d @ [bytes]\<rparr>))"

record writer =
  outfile :: device
  minInterval :: int
  interval :: int
  timestampInterval :: int
  lastTimestamp :: int
  autoflush :: bool
  encoding :: Encoding

text \<open>\<^verbatim>\<open>QByteArray::split\<close>: the parts between the separators, empty parts kept.\<close>

fun splitOn :: "char \<Rightarrow> string \<Rightarrow> string list" where
  "splitOn sep [] = [[]]"
| "splitOn sep (x # xs) =
     (if x = sep then [] # splitOn sep xs
      else (case splitOn sep xs of [] \<Rightarrow> [[x]] | l # ls \<Rightarrow> (x # l) # ls))"

definition newline :: string where
  "newline = [CHR 0x0A]"

text \<open>The loop of \<^verbatim>\<open>Writer::writeComment\<close> over the lines, left at the first failed write.\<close>

fun writeCommentLines :: "string list \<Rightarrow> device \<Rightarrow> bool \<times> device" where
  "writeCommentLines [] d = (True, d)"
| "writeCommentLines (l # ls) d =
     (case devWrite ''# '' d of (n1, d1) \<Rightarrow>
        if n1 \<noteq> 2 then (False, d1)
        else (case devWrite l d1 of (n2, d2) \<Rightarrow>
          if n2 \<noteq> int (length l) then (False, d2)
          else (case devWrite newline d2 of (n3, d3) \<Rightarrow>
            if n3 \<noteq> 1 then (False, d3) else writeCommentLines ls d3)))"

definition writeComment :: "string \<Rightarrow> writer \<Rightarrow> bool \<times> writer" where
  "writeComment comment w =
     (if encoding w \<noteq> Text then (True, w)
      else (case writeCommentLines (splitOn (CHR 0x0A) comment) (outfile w) of
              (ok, d) \<Rightarrow> (ok, w\<lparr>outfile := d\<rparr>)))"

definition writeMessage :: "ext \<Rightarrow> msg \<Rightarrow> writer \<Rightarrow> bool \<times> writer" where
  "writeMessage P m w =
     (if encoding w = Binary then
        (case devWrite (serialize P m) (outfile w) of (n, d) \<Rightarrow>
           if n \<noteq> int (length (serialize P m)) then (False, w\<lparr>outfile := d\<rparr>)
           else (True, w\<lparr>outfile := d\<rparr>))
      else
        (case body m of
           Filtered wrappedType wrappedLen wrapped \<Rightarrow>
             writeComment
               (case wrapped of
                  None \<Rightarrow> ''FILTERED: undecodable message type #'' @ decimal (int wrappedType)
                           @ '' of length '' @ decimal (int wrappedLen)
                | Some txt \<Rightarrow> ''FILTERED: '' @ txt) w
         | _ \<Rightarrow>
           (case devWrite (toString P m) (outfile w) of (n1, d1) \<Rightarrow>
              if n1 \<noteq> int (length (toString P m)) then (False, w\<lparr>outfile := d1\<rparr>)
              else (case devWrite newline d1 of (n2, d2) \<Rightarrow>
                if n2 \<noteq> 1 then (False, w\<lparr>outfile := d2\<rparr>)
                else if body m = UndoPoint then
                  (case devWrite newline d2 of (n3, d3) \<Rightarrow>
                     if n3 \<noteq> 1 then (False, w\<lparr>outfile := d3\<rparr>) else (True, w\<lparr>outfile := d3\<rparr>))
                else (True, w\<lparr>outfile := d2\<rparr>)))))"

text \<open>
  \<^verbatim>\<open>Writer::recordMessage\<close>, with the clock reading \<open>now\<close> (milliseconds) as an argument.
  The results of the writes are dropped, as the source drops them.
\<close>

definition recordMessage :: "ext \<Rightarrow> int \<Rightarrow> msg \<Rightarrow> writer \<Rightarrow> writer" where
  "recordMessage P now m w =
     (if isRecordable P m then
        let w1 = (if minInterval w > 0 then
                    (if now - interval w \<ge> minInterval w
                     then snd (writeMessage P (Msg 0 (Interval (min 65535 (now - interval w)))) w)
                     else w)\<lparr>interval := now\<rparr>
                  else w);
            w2 = (if timestampInterval w1 > 0 \<and> now - lastTimestamp w1 \<ge> timestampInterval w1
                  then (snd (writeMessage P (Msg 0 (Marker (dateString P now))) w1))
                         \<lparr>lastTimestamp := now\<rparr>
                  else w1)
        in snd (writeMessage P m w2)
      else w)"


section \<open>Clients and the session\<close>

text \<open>
  The fields of \<^verbatim>\<open>Client::Private\<close>. \<open>attached\<close> says that the session pointer is set.
  Modelled from the spec: the message queue (messagequeue.h is not among the sources) is
  the list of the messages handed to it, oldest first, and the number of them that the
  transport has taken; it is uploading until its outbound queue has fully drained.
\<close>

record client =
  attached :: bool
  cid :: int
  username :: string
  extAuthId :: string
  avatar :: string
  opFlag :: bool
  isModerator :: bool
  isTrusted :: bool
  isAuthenticated :: bool
  isMuted :: bool
  historyPosition :: int
  holdqueue :: "msg list"
  sendqueue :: "msg list"
  transmitted :: nat
  peerAddress :: string
  peerLoopback :: bool

definition isOperator :: "client \<Rightarrow> bool" where
  "isOperator c = (opFlag c \<or> isModerator c)"

definition isUploading :: "client \<Rightarrow> bool" where
  "isUploading c = (transmitted c < length (sendqueue c))"

definition joinMessage :: "client \<Rightarrow> msg" where
  "joinMessage c = Msg (cid c) (UserJoin (isAuthenticated c) (isModerator c) (username c) (avatar c))"

definition sendDirectMessage :: "msg \<Rightarrow> client \<Rightarrow> client" where
  "sendDirectMessage m c = c\<lparr>sendqueue := sendqueue c @ [m]\<rparr>"

datatype State = Initialization | Running | Reset | Shutdown

datatype AutoResetState = NotSent | Queried | Requested

record Announcement =
  apiUrl :: string
  roomcode :: string
  listingId :: int
  refreshInterval :: int
  isPrivate :: bool

text \<open>
  The members of \<^verbatim>\<open>Session\<close>, and what it reads from its surroundings: the server's log
  (\<open>serverlog\<close>, oldest entry first), two settings of the server configuration, the
  clock (\<open>clock\<close>, in milliseconds; the two timers hold the reading at which they were
  started), whether a recording file can be opened, and the clients that have left
  (\<open>departed\<close>, for what is sent to them after they were removed).
\<close>

record session =
  state :: State
  initUser :: int
  clients :: "client list"
  history :: history
  resetstream :: "msg list"
  resetstreamsize :: nat
  closed :: bool
  authOnly :: bool
  autoResetRequestStatus :: AutoResetState
  recorder :: "writer option"
  recordingFile :: string
  publicListings :: "Announcement list"
  serverlog :: "logentry list"
  departed :: "client list"
  clock :: int
  lastEventTime :: int
  lastStatusUpdate :: int
  welcomeMessage :: string
  enablePersistence :: bool
  recordingOpenable :: bool

fun findIndex :: "('a \<Rightarrow> bool) \<Rightarrow> 'a list \<Rightarrow> nat option" where
  "findIndex p [] = None"
| "findIndex p (x # xs) = (if p x then Some 0 else map_option Suc (findIndex p xs))"

text \<open>\<^verbatim>\<open>Session::getClientById\<close>: the first client of the list with the id, by its index.\<close>

definition getClientById :: "session \<Rightarrow> int \<Rightarrow> nat option" where
  "getClientById s i = findIndex (\<lambda>c. cid c = i) (clients s)"

definition sendTo :: "nat \<Rightarrow> msg \<Rightarrow> session \<Rightarrow> session" where
  "sendTo i m s = s\<lparr>clients := (clients s)[i := sendDirectMessage m (clients s ! i)]\<rparr>"

definition directToAll :: "msg \<Rightarrow> session \<Rightarrow> session" where
  "directToAll m s = s\<lparr>clients := map (sendDirectMessage m) (clients s)\<rparr>"

definition messageAll :: "string \<Rightarrow> bool \<Rightarrow> session \<Rightarrow> session" where
  "messageAll txt alert s =
     (if txt = [] then s
      else directToAll (Msg 0 (ServerReply (if alert then ALERT else MESSAGE) txt (Fields []))) s)"

text \<open>\<^verbatim>\<open>Session::log\<close>: to the server's log, and to every client below the Debug level.\<close>

definition Session_log :: "logentry \<Rightarrow> session \<Rightarrow> session" where
  "Session_log l s =
     (let entry = l\<lparr>inSession := True\<rparr>;
          s1 = s\<lparr>serverlog := serverlog s @ [entry]\<rparr>
      in if levelNum (level entry) < levelNum Debug then directToAll (makeLogMessage entry) s1
         else s1)"

text \<open>\<^verbatim>\<open>Client::log\<close>, for the client object \<open>c\<close>.\<close>

definition Client_log :: "client \<Rightarrow> logentry \<Rightarrow> session \<Rightarrow> session" where
  "Client_log c l s =
     (let entry = l\<lparr>user := Some (cid c, username c)\<rparr>
      in if attached c then Session_log entry s
         else s\<lparr>serverlog := serverlog s @ [entry]\<rparr>)"

subsection \<open>Appending to the history\<close>

definition apostrophe :: string where
  "apostrophe = [CHR 0x27]"

text \<open>\<^verbatim>\<open>Session::addToHistory\<close>, lines 652 to 657: the history refused the message.\<close>

definition historyLimitReached :: "msg \<Rightarrow> session \<Rightarrow> session" where
  "historyLimitReached m s =
     (let shame = getClientById s (contextId m);
          s1 = messageAll ''History size limit reached!'' False s
      in messageAll
           ((case shame of
               Some i \<Rightarrow> username (clients s ! i)
             | None \<Rightarrow> ''user #'' @ decimal (contextId m))
            @ '' broke the camel'' @ apostrophe
            @ ''s back. Session must be reset to continue drawing.'') False s1)"

text \<open>
  Lines 662 to 670: during initialization the hosting user skips the history and is sent
  what is not a command. The \<^verbatim>\<open>Q_ASSERT\<close> is that of a debug build; the code tests the
  pointer again for a release build, which is the one modelled.
\<close>

definition notifyOrigin :: "ext \<Rightarrow> msg \<Rightarrow> session \<Rightarrow> session" where
  "notifyOrigin P m s =
     (if state s = Initialization then
        (case getClientById s (initUser s) of
           None \<Rightarrow> s
         | Some i \<Rightarrow>
             let s1 = s\<lparr>clients := (clients s)
                         [i := (clients s ! i)\<lparr>historyPosition := lastIndex (history s)\<rparr>]\<rparr>
             in if \<not> isCommand P m then sendTo i m s1 else s1)
      else s)"

text \<open>Lines 672 to 675.\<close>

definition mirrorToRecorder :: "ext \<Rightarrow> msg \<Rightarrow> session \<Rightarrow> session" where
  "mirrorToRecorder P m s =
     (case recorder s of
        None \<Rightarrow> s
      | Some w \<Rightarrow> s\<lparr>recorder := Some (recordMessage P (clock s) m w)\<rparr>)
     \<lparr>lastEventTime := clock s\<rparr>"

definition sizeLimitWarning :: "ext \<Rightarrow> session \<Rightarrow> msg" where
  "sizeLimitWarning P s =
     Msg 0 (ServerReply SIZELIMITWARNING []
       (Fields [(''size'', JNum (int (sizeInBytes (history s)))),
                (''maxSize'', JNum (int (effectiveAutoResetThreshold P (history s))))]))"

definition resetRequest :: "bool \<Rightarrow> session \<Rightarrow> msg" where
  "resetRequest query s =
     Msg 0 (ServerReply RESETREQUEST []
       (Fields [(''maxSize'', JNum (int (sizeLimit (history s)))), (''query'', JBool query)]))"

text \<open>
  Lines 677 to 709. The text of the log entry leaves out the two sizes, which the source
  prints as floating-point numbers of megabytes.
\<close>

definition requestAutoReset :: "ext \<Rightarrow> session \<Rightarrow> session" where
  "requestAutoReset P s =
     (if effectiveAutoResetThreshold P (history s) > 0
         \<and> autoResetRequestStatus s = NotSent
         \<and> sizeInBytes (history s) > effectiveAutoResetThreshold P (history s)
      then
        let s1 = Session_log (Log Info Status ''Autoreset threshold reached.'') s;
            s2 = directToAll (sizeLimitWarning P s1) s1;
            s3 = s2\<lparr>clients :=
                     map (\<lambda>c. if isOperator c then sendDirectMessage (resetRequest True s2) c else c)
                       (clients s2)\<rparr>
        in s3\<lparr>autoResetRequestStatus := Queried\<rparr>
      else s)"

text \<open>Lines 711 to 718.\<close>

definition statusUpdate :: "session \<Rightarrow> session" where
  "statusUpdate s =
     (if clock s - lastStatusUpdate s > 10 * 1000 then
        (directToAll
           (Msg 0 (ServerReply STATUS [] (Fields [(''size'', JNum (int (sizeInBytes (history s))))])))
           s)\<lparr>lastStatusUpdate := clock s\<rparr>
      else s)"

definition addToHistory :: "ext \<Rightarrow> msg \<Rightarrow> session \<Rightarrow> session" where
  "addToHistory P m s =
     (if state s = Shutdown then s
      else (case addMessage P m (history s) of
              None \<Rightarrow> historyLimitReached m s
            | Some h \<Rightarrow>
                statusUpdate
                  (requestAutoReset P
                    (mirrorToRecorder P m
                      (notifyOrigin P m (s\<lparr>history := h\<rparr>))))))"

subsection \<open>Answers to the auto-reset query\<close>

definition readyToAutoReset :: "int \<Rightarrow> session \<Rightarrow> session" where
  "readyToAutoReset ctxId s =
     (case getClientById s ctxId of
        None \<Rightarrow>
          Session_log (Log Error RuleBreak
            (''Non-existent user '' @ decimal ctxId @ '' sent ready-to-autoreset'')) s
      | Some i \<Rightarrow>
          if \<not> isOperator (clients s ! i) then
            Session_log (Log Warn RuleBreak
              (''User '' @ decimal ctxId @ '' is not an operator, but sent ready-to-autoreset'')) s
          else if autoResetRequestStatus s \<noteq> Queried then
            Session_log (Log Debug Status
              (''User '' @ decimal ctxId @ '' was late to respond to an autoreset request'')) s
          else
            let s1 = Session_log (Log Info Status
                       (''User '' @ decimal ctxId @ '' responded to autoreset request first'')) s
            in (sendTo i (resetRequest False s1) s1)\<lparr>autoResetRequestStatus := Requested\<rparr>)"


subsection \<open>The session configuration\<close>

text \<open>
  The accessors of session.h (not among the sources) read the history: the session is
  persistent when the history has the flag, and has a password or an opword when the
  hash is not empty.
\<close>

definition sessionConf :: "session \<Rightarrow> jobject" where
  "sessionConf s =
     [(''closed'', JBool (closed s)),
      (''authOnly'', JBool (authOnly s)),
      (''persistent'', JBool (Persistent \<in> flags (history s))),
      (''title'', JStr (title (history s))),
      (''maxUserCount'', JNum (maxUsers (history s))),
      (''resetThreshold'', JNum (int (autoResetThreshold (history s)))),
      (''resetThresholdBase'', JNum (int (autoResetThresholdBase (history s)))),
      (''preserveChat'', JBool (PreserveChat \<in> flags (history s))),
      (''nsfm'', JBool (Nsfm \<in> flags (history s))),
      (''deputies'', JBool (Deputies \<in> flags (history s))),
      (''hasPassword'', JBool (passwordHash (history s) \<noteq> [])),
      (''hasOpword'', JBool (opwordHash (history s) \<noteq> []))]"

definition sendUpdatedSessionProperties :: "ext \<Rightarrow> session \<Rightarrow> session" where
  "sendUpdatedSessionProperties P s =
     addToHistory P (Msg 0 (ServerReply SESSIONCONF [] (Fields [(''config'', JObj (sessionConf s))]))) s"

definition setClosed :: "ext \<Rightarrow> bool \<Rightarrow> session \<Rightarrow> session" where
  "setClosed P b s =
     (if closed s \<noteq> b then sendUpdatedSessionProperties P (s\<lparr>closed := b\<rparr>) else s)"

definition setFlag :: "HFlag set \<Rightarrow> HFlag \<Rightarrow> bool \<Rightarrow> HFlag set" where
  "setFlag fs f b = (if b then insert f fs else fs - {f})"

definition toUpper :: "char \<Rightarrow> char" where
  "toUpper c =
     (if (97::nat) \<le> of_char c \<and> of_char c \<le> (122::nat) then char_of (of_char c - (32::nat))
      else c)"

fun joinWith :: "string \<Rightarrow> string list \<Rightarrow> string" where
  "joinWith sep [] = []"
| "joinWith sep [x] = x"
| "joinWith sep (x # y # ys) = x @ sep @ joinWith sep (y # ys)"

text \<open>
  \<^verbatim>\<open>Session::setSessionConfig\<close>, field by field; \<open>changedBy\<close> is the acting client, or
  \<open>None\<close> for the null pointer. Each step takes and answers the session, the local copy
  of the history's flags and the list of changes.
\<close>

type_synonym confstep = "session \<times> HFlag set \<times> string list"

definition confClosed :: "jobject \<Rightarrow> session \<times> string list \<Rightarrow> session \<times> string list" where
  "confClosed conf = (\<lambda>(s, changes).
     if jcontains conf ''closed'' then
       (s\<lparr>closed := toBool (jvalue conf ''closed'')\<rparr>,
        changes @ [if toBool (jvalue conf ''closed'') then ''closed'' else ''opened''])
     else (s, changes))"

definition confAuthOnly ::
  "jobject \<Rightarrow> client option \<Rightarrow> session \<times> string list \<Rightarrow> session \<times> string list" where
  "confAuthOnly conf changedBy = (\<lambda>(s, changes).
     if jcontains conf ''authOnly'' then
       (let a = toBool (jvalue conf ''authOnly'')
        in if \<not> a \<or> changedBy = None \<or> (case changedBy of Some c \<Rightarrow> isAuthenticated c | None \<Rightarrow> True)
           then (s\<lparr>authOnly := a\<rparr>,
                 changes @ [if a then ''blocked guest logins'' else ''permitted guest logins''])
           else (s, changes))
     else (s, changes))"

definition confPersistent :: "jobject \<Rightarrow> confstep \<Rightarrow> confstep" where
  "confPersistent conf = (\<lambda>(s, fl, changes).
     if jcontains conf ''persistent'' then
       (s, setFlag fl Persistent (toBool (jvalue conf ''persistent'') \<and> enablePersistence s),
        changes @ [if toBool (jvalue conf ''persistent'') then ''made persistent''
                   else ''made nonpersistent''])
     else (s, fl, changes))"

definition confTitle :: "jobject \<Rightarrow> confstep \<Rightarrow> confstep" where
  "confTitle conf = (\<lambda>(s, fl, changes).
     if jcontains conf ''title'' then
       (s\<lparr>history := (history s)\<lparr>title := take 100 (toQString (jvalue conf ''title''))\<rparr>\<rparr>, fl,
        changes @ [''changed title''])
     else (s, fl, changes))"

definition confMaxUserCount :: "jobject \<Rightarrow> confstep \<Rightarrow> confstep" where
  "confMaxUserCount conf = (\<lambda>(s, fl, changes).
     if jcontains conf ''maxUserCount'' then
       (s\<lparr>history := (history s)\<lparr>maxUsers := toInt (jvalue conf ''maxUserCount'')\<rparr>\<rparr>, fl,
        changes @ [''changed max. user count''])
     else (s, fl, changes))"

definition confResetThreshold :: "jobject \<Rightarrow> confstep \<Rightarrow> confstep" where
  "confResetThreshold conf = (\<lambda>(s, fl, changes).
     if jcontains conf ''resetThreshold'' then
       (s\<lparr>history := (history s)
            \<lparr>autoResetThreshold := nat (toInt (jvalue conf ''resetThreshold'') mod 4294967296)\<rparr>\<rparr>,
        fl, changes @ [''changed autoreset threshold''])
     else (s, fl, changes))"

definition confPassword :: "ext \<Rightarrow> jobject \<Rightarrow> confstep \<Rightarrow> confstep" where
  "confPassword P conf = (\<lambda>(s, fl, changes).
     if jcontains conf ''password'' then
       (s\<lparr>history := (history s)\<lparr>passwordHash := hash P (toQString (jvalue conf ''password''))\<rparr>\<rparr>,
        fl, changes @ [''changed password''])
     else (s, fl, changes))"

definition confOpword :: "ext \<Rightarrow> jobject \<Rightarrow> confstep \<Rightarrow> confstep" where
  "confOpword P conf = (\<lambda>(s, fl, changes).
     if jcontains conf ''opword'' then
       (s\<lparr>history := (history s)\<lparr>opwordHash := hash P (toQString (jvalue conf ''opword''))\<rparr>\<rparr>,
        fl, changes @ [''changed opword''])
     else (s, fl, changes))"

definition confPreserveChat :: "jobject \<Rightarrow> confstep \<Rightarrow> confstep" where
  "confPreserveChat conf = (\<lambda>(s, fl, changes).
     if jcontains conf ''preserveChat'' then
       (s, setFlag fl PreserveChat (toBool (jvalue conf ''preserveChat'')),
        changes @ [if toBool (jvalue conf ''preserveChat'') then ''preserve chat''
                   else ''don'' @ apostrophe @ ''t preserve chat''])
     else (s, fl, changes))"

definition confNsfm :: "jobject \<Rightarrow> confstep \<Rightarrow> confstep" where
  "confNsfm conf = (\<lambda>(s, fl, changes).
     if jcontains conf ''nsfm'' then
       (s, setFlag fl Nsfm (toBool (jvalue conf ''nsfm'')),
        changes @ [if toBool (jvalue conf ''nsfm'') then ''tagged NSFM'' else ''removed NSFM tag''])
     else (s, fl, changes))"

definition confDeputies :: "jobject \<Rightarrow> confstep \<Rightarrow> confstep" where
  "confDeputies conf = (\<lambda>(s, fl, changes).
     if jcontains conf ''deputies'' then
       (s, setFlag fl Deputies (toBool (jvalue conf ''deputies'')),
        changes @ [if toBool (jvalue conf ''deputies'') then ''enabled deputies''
                   else ''disabled deputies''])
     else (s, fl, changes))"

text \<open>Lines 408 to 420: the flags are stored, and a change is broadcast and logged.\<close>

definition confFinish :: "ext \<Rightarrow> client option \<Rightarrow> confstep \<Rightarrow> session" where
  "confFinish P changedBy = (\<lambda>(s, fl, changes).
     let s1 = s\<lparr>history := (history s)\<lparr>flags := fl\<rparr>\<rparr>
     in if changes \<noteq> [] then
          let s2 = sendUpdatedSessionProperties P s1;
              logmsg = joinWith '', '' changes;
              l = Log Info Status (case logmsg of [] \<Rightarrow> [] | c # cs \<Rightarrow> toUpper c # cs)
          in (case changedBy of Some c \<Rightarrow> Client_log c l s2 | None \<Rightarrow> Session_log l s2)
        else s1)"

definition setSessionConfig :: "ext \<Rightarrow> jobject \<Rightarrow> client option \<Rightarrow> session \<Rightarrow> session" where
  "setSessionConfig P conf changedBy s =
     (case confAuthOnly conf changedBy (confClosed conf (s, [])) of (s1, changes) \<Rightarrow>
        confFinish P changedBy
          (confDeputies conf
            (confNsfm conf
              (confPreserveChat conf
                (confOpword P conf
                  (confPassword P conf
                    (confResetThreshold conf
                      (confMaxUserCount conf
                        (confTitle conf
                          (confPersistent conf (s1, flags (history s1), changes)))))))))))"

subsection \<open>Catch-up delivery\<close>

text \<open>\<^verbatim>\<open>Session::historyCacheCleanup\<close>: the watermark is the least cursor of the clients.\<close>

definition historyCacheCleanup :: "session \<Rightarrow> session" where
  "historyCacheCleanup s =
     s\<lparr>history :=
         cleanupBatches
           (foldl (\<lambda>minIdx c. min (historyPosition c) minIdx) (lastIndex (history s)) (clients s))
           (history s)\<rparr>"

text \<open>
  \<^verbatim>\<open>Client::sendNextHistoryBatch\<close>, for the client of index \<open>i\<close>; an index that names no
  client of the list is a client without a session.
\<close>

definition sendNextHistoryBatch :: "nat \<Rightarrow> session \<Rightarrow> session" where
  "sendNextHistoryBatch i s =
     (if i \<ge> length (clients s) \<or> \<not> attached (clients s ! i) \<or> isUploading (clients s ! i)
         \<or> state s \<noteq> Running
      then s
      else
        let s1 = historyCacheCleanup s;
            c = clients s1 ! i;
            r = getBatch (history s1) (historyPosition c)
        in s1\<lparr>clients := (clients s1)
               [i := c\<lparr>historyPosition := snd r, sendqueue := sendqueue c @ fst r\<rparr>]\<rparr>)"

definition systemChat :: "string \<Rightarrow> msg" where
  "systemChat txt = Msg 0 (ServerReply MESSAGE txt (Fields []))"

definition catchupMessage :: "int \<Rightarrow> msg" where
  "catchupMessage n = Msg 0 (ServerReply CATCHUP [] (Fields [(''count'', JNum n)]))"

subsection \<open>Lists sent to everyone\<close>

definition sendUpdatedAnnouncementList :: "session \<Rightarrow> session" where
  "sendUpdatedAnnouncementList s =
     directToAll
       (Msg 0 (ServerReply SESSIONCONF []
          (Fields [(''config'', JObj [(''announcements'',
             JArr (map (\<lambda>a. JObj [(''url'', JStr (apiUrl a)), (''roomcode'', JStr (roomcode a)),
                                   (''private'', JBool (isPrivate a))])
                    (publicListings s)))])]))) s"

definition banlistMessage :: "ext \<Rightarrow> bool \<Rightarrow> session \<Rightarrow> msg" where
  "banlistMessage P showIp s =
     Msg 0 (ServerReply SESSIONCONF []
       (Fields [(''config'', JObj [(''banlist'', banlistToJson P (banlist (history s)) showIp)])]))"

definition sendUpdatedBanlist :: "ext \<Rightarrow> session \<Rightarrow> session" where
  "sendUpdatedBanlist P s =
     s\<lparr>clients :=
         map (\<lambda>c. if isModerator c \<or> peerLoopback c
                   then sendDirectMessage (banlistMessage P True s) c
                   else sendDirectMessage (banlistMessage P False s) c)
           (clients s)\<rparr>"

definition sendUpdatedMuteList :: "session \<Rightarrow> session" where
  "sendUpdatedMuteList s =
     directToAll
       (Msg 0 (ServerReply SESSIONCONF []
          (Fields [(''config'', JObj [(''muted'',
             JArr (map (\<lambda>c. JNum (cid c)) (filter isMuted (clients s))))])]))) s"

subsection \<open>Operator and trusted status\<close>

text \<open>
  The body of the loop of \<^verbatim>\<open>Session::changeOpStatus\<close> (lines 474 to 498) for the client
  of index \<open>k\<close>: the session, the ids gathered so far and the client to kick.
\<close>

type_synonym oploop = "session \<times> int list \<times> nat option"

definition setOpFlag :: "nat \<Rightarrow> bool \<Rightarrow> string \<Rightarrow> session \<Rightarrow> session" where
  "setOpFlag k op changedBy s =
     (let c = (clients s ! k)\<lparr>opFlag := op\<rparr>;
          s1 = s\<lparr>clients := (clients s)[k := c]\<rparr>;
          txt = (if op then ''Made operator by '' @ changedBy
                 else ''Operator status revoked by '' @ changedBy);
          s2 = Client_log c (Log Info (if op then Op else Deop) txt) s1;
          s3 = messageAll (username c @ '' '' @ txt) False s2
      in if isAuthenticated c \<and> \<not> isModerator c
         then s3\<lparr>history := setAuthenticatedOperator (username c) op (history s3)\<rparr>
         else s3)"

definition changeOpStatusStep :: "int \<Rightarrow> bool \<Rightarrow> string \<Rightarrow> oploop \<Rightarrow> nat \<Rightarrow> oploop" where
  "changeOpStatusStep i op changedBy = (\<lambda>(s, ids, kick) k.
     let c = clients s ! k;
         hit = (cid c = i \<and> isOperator c \<noteq> op);
         kick1 = (if hit \<and> \<not> op \<and> cid c = initUser s \<and> state s = Reset then Some k else kick);
         s1 = (if hit then setOpFlag k op changedBy s else s)
     in (s1, if isOperator (clients s1 ! k) then ids @ [u8 (cid (clients s1 ! k))] else ids, kick1))"

definition changeOpStatusLoop :: "int \<Rightarrow> bool \<Rightarrow> string \<Rightarrow> session \<Rightarrow> oploop" where
  "changeOpStatusLoop i op changedBy s =
     foldl (changeOpStatusStep i op changedBy) (s, [], None) [0..<length (clients s)]"

text \<open>
  \<^verbatim>\<open>Session::changeOpStatus(id, true, changedBy)\<close>: with \<open>op = true\<close> the loop never finds
  a client to kick, so the call ends with the append of the owner list. The calls of
  \<^verbatim>\<open>joinUser\<close> and \<^verbatim>\<open>ensureOperatorExists\<close> are of this kind.
\<close>

definition grantOpStatus :: "ext \<Rightarrow> int \<Rightarrow> string \<Rightarrow> session \<Rightarrow> session" where
  "grantOpStatus P i changedBy s =
     (case changeOpStatusLoop i True changedBy s of
        (s1, ids, kick) \<Rightarrow> addToHistory P (Msg 0 (SessionOwner ids)) s1)"

definition setTrustedFlag :: "nat \<Rightarrow> bool \<Rightarrow> string \<Rightarrow> session \<Rightarrow> session" where
  "setTrustedFlag k t changedBy s =
     (let c = (clients s ! k)\<lparr>isTrusted := t\<rparr>;
          s1 = s\<lparr>clients := (clients s)[k := c]\<rparr>;
          txt = (if t then ''Trusted by '' @ changedBy else ''Untrusted by '' @ changedBy);
          s2 = Client_log c (Log Info (if t then Trust else Untrust) txt) s1;
          s3 = messageAll (username c @ '' '' @ txt) False s2
      in if isAuthenticated c
         then s3\<lparr>history := setAuthenticatedTrust (username c) t (history s3)\<rparr>
         else s3)"

definition changeTrustedStatusStep ::
  "int \<Rightarrow> bool \<Rightarrow> string \<Rightarrow> session \<times> int list \<Rightarrow> nat \<Rightarrow> session \<times> int list" where
  "changeTrustedStatusStep i t changedBy = (\<lambda>(s, ids) k.
     let c = clients s ! k;
         s1 = (if cid c = i \<and> isTrusted c \<noteq> t then setTrustedFlag k t changedBy s else s)
     in (s1, if isTrusted (clients s1 ! k) then ids @ [u8 (cid (clients s1 ! k))] else ids))"

definition changeTrustedStatus :: "ext \<Rightarrow> int \<Rightarrow> bool \<Rightarrow> string \<Rightarrow> session \<Rightarrow> session" where
  "changeTrustedStatus P i t changedBy s =
     (case foldl (changeTrustedStatusStep i t changedBy) (s, []) [0..<length (clients s)] of
        (s1, ids) \<Rightarrow> addToHistory P (Msg 0 (TrustedUsers ids)) s1)"



text \<open>\<^verbatim>\<open>Session::ensureOperatorExists\<close>.\<close>

definition ensureOperatorExists :: "ext \<Rightarrow> session \<Rightarrow> session" where
  "ensureOperatorExists P s =
     (if opwordHash (history s) \<noteq> [] \<or> authenticatedOperators (history s) then s
      else if \<not> list_ex isOperator (clients s) then
        (case clients s of
           [] \<Rightarrow> s
         | c # cs \<Rightarrow> grantOpStatus P (cid c) ''the server'' s)
      else s)"

subsection \<open>The state machine\<close>

text \<open>
  \<^verbatim>\<open>Client::enqueueHeldCommands\<close>, for the client of index \<open>i\<close>. The client is hold-locked
  while the state of the session is not Running.
\<close>

definition isHoldLocked :: "session \<Rightarrow> bool" where
  "isHoldLocked s = (state s \<noteq> Running)"

definition enqueueHeldCommands :: "ext \<Rightarrow> session \<Rightarrow> nat \<Rightarrow> session" where
  "enqueueHeldCommands P s i =
     (if \<not> attached (clients s ! i) \<or> isHoldLocked s then s
      else
        let s1 = foldl (\<lambda>s' m. addToHistory P m s') s (holdqueue (clients s ! i))
        in s1\<lparr>clients := (clients s1)[i := (clients s1 ! i)\<lparr>holdqueue := []\<rparr>]\<rparr>)"

text \<open>
  The writer that \<^verbatim>\<open>Session::restartRecording\<close> makes for a file name: the text
  encoding when the name has \<^verbatim>\<open>.dptxt\<close> and has not \<^verbatim>\<open>.dprec\<close>, whatever the case of the
  letters. The compression of the file and the suffix that makes the name unique are
  left out.
\<close>

definition toLower :: "char \<Rightarrow> char" where
  "toLower c =
     (if (65::nat) \<le> of_char c \<and> of_char c \<le> (90::nat) then char_of (of_char c + (32::nat))
      else c)"

fun isInfix :: "string \<Rightarrow> string \<Rightarrow> bool" where
  "isInfix p [] = (p = [])"
| "isInfix p (x # xs) = (take (length p) (x # xs) = p \<or> isInfix p xs)"

definition newWriter :: "string \<Rightarrow> bool \<Rightarrow> writer" where
  "newWriter filename canOpen =
     \<lparr>outfile = \<lparr>isOpen = False, openable = canOpen, failing = False, written = []\<rparr>,
      minInterval = 0, interval = 0, timestampInterval = 0, lastTimestamp = 0,
      autoflush = False,
      encoding = (if isInfix ''.dptxt'' (map toLower filename)
                     \<and> \<not> isInfix ''.dprec'' (map toLower filename) then Text else Binary)\<rparr>"

text \<open>
  The loop at the end of \<^verbatim>\<open>Session::restartRecording\<close>: batch after batch, until the
  cursor has reached the last index.
\<close>

function recordHistory :: "ext \<Rightarrow> int \<Rightarrow> history \<Rightarrow> int \<Rightarrow> writer \<Rightarrow> writer" where
  "recordHistory P now h lastBatchIndex w =
     (let r = getBatch h lastBatchIndex;
          w1 = foldl (\<lambda>w' m. recordMessage P now m w') w (fst r)
      in if snd r < lastIndex h then recordHistory P now h (snd r) w1 else w1)"
  by pat_completeness auto
termination
  by (relation "{}") (auto simp: getBatch_def split: if_splits)

declare recordHistory.simps [simp del]

definition restartRecording :: "ext \<Rightarrow> session \<Rightarrow> session" where
  "restartRecording P s =
     (let w = newWriter (recordingFile s) (recordingOpenable s)
      in if \<not> openable (outfile w) then s\<lparr>recorder := None\<rparr>
         else
           let w1 = w\<lparr>outfile := snd (devWrite (recordingHeader P (encoding w))
                                        ((outfile w)\<lparr>isOpen := True\<rparr>)),
                     autoflush := True\<rparr>
           in s\<lparr>recorder := Some (recordHistory P (clock s) (history s) 0 w1)\<rparr>)"

text \<open>
  Lines 102 to 146 of \<^verbatim>\<open>Session::switchState\<close>: the reset buffer is committed. The
  answer says whether the history took it.
\<close>

definition resetSnapshot :: "session \<Rightarrow> msg list" where
  "resetSnapshot s =
     (let owners = map (\<lambda>c. u8 (cid c)) (filter isOperator (clients s));
          trusted = map (\<lambda>c. u8 (cid c)) (filter isTrusted (clients s));
          joined = foldl (\<lambda>stream c. joinMessage c # stream) (resetstream s) (clients s)
      in Msg 0 (SessionOwner owners)
         # (if trusted \<noteq> [] then Msg 0 (TrustedUsers trusted) # joined else joined))"

definition commitReset :: "ext \<Rightarrow> session \<Rightarrow> bool \<times> session" where
  "commitReset P s =
     (let s0 = s\<lparr>resetstream := resetSnapshot s\<rparr>
      in (case reset P (resetstream s0) (history s0) of
            None \<Rightarrow>
              (False, (messageAll ''Session reset failed!'' True s0)
                        \<lparr>resetstream := [], resetstreamsize := 0\<rparr>)
          | Some h \<Rightarrow>
              let s1 = directToAll
                         (Msg 0 (ServerReply RESET ''Session reset!'' (Fields [(''state'', JStr ''reset'')])))
                         (s0\<lparr>history := h\<rparr>);
                  s2 = directToAll (catchupMessage (lastIndex (history s1) - firstIndex (history s1))) s1;
                  s3 = sendUpdatedSessionProperties P (s2\<lparr>autoResetRequestStatus := NotSent\<rparr>)
              in (True, s3\<lparr>resetstream := [], resetstreamsize := 0\<rparr>)))"

text \<open>
  \<^verbatim>\<open>Session::switchState\<close>. An illegal change of state ends the process (\<^verbatim>\<open>qFatal\<close>):
  the answer is \<open>None\<close>.
\<close>

definition switchState :: "ext \<Rightarrow> State \<Rightarrow> session \<Rightarrow> session option" where
  "switchState P newstate s =
     (case newstate of
        Initialization \<Rightarrow> None
      | Running \<Rightarrow>
          if state s \<noteq> Initialization \<and> state s \<noteq> Reset then None
          else
            let s0 = s\<lparr>initUser := - 1\<rparr>;
                r = (if state s0 = Reset \<and> resetstream s0 \<noteq> [] then commitReset P s0
                     else (True, s0));
                s1 = (if fst r \<and> recordingFile (snd r) \<noteq> [] then restartRecording P (snd r)
                      else snd r);
                s2 = foldl (enqueueHeldCommands P) s1 [0..<length (clients s1)]
            in Some (s2\<lparr>state := Running\<rparr>)
      | Reset \<Rightarrow>
          if state s \<noteq> Running then None
          else Some ((messageAll ''Preparing for session reset!'' True
                        (s\<lparr>resetstream := [], resetstreamsize := 0\<rparr>))\<lparr>state := Reset\<rparr>)
      | Shutdown \<Rightarrow> Some (s\<lparr>state := Shutdown\<rparr>))"

definition abortReset :: "ext \<Rightarrow> session \<Rightarrow> session option" where
  "abortReset P s =
     map_option (messageAll ''Session reset cancelled.'' True)
       (switchState P Running (s\<lparr>initUser := - 1, resetstream := [], resetstreamsize := 0\<rparr>))"

subsection \<open>Joining and leaving\<close>

text \<open>
  \<^verbatim>\<open>Session::removeUser\<close>, for the client of index \<open>i\<close>; an index that names no client of
  the list is a client that \<^verbatim>\<open>removeOne\<close> does not find. The client taken out of the list
  is kept, detached, as the last of \<open>departed\<close>.
\<close>

definition removeUser :: "ext \<Rightarrow> nat \<Rightarrow> session \<Rightarrow> session option" where
  "removeUser P i s =
     (if i \<ge> length (clients s) then Some s
      else
        let usr = clients s ! i;
            s1 = s\<lparr>clients := take i (clients s) @ drop (Suc i) (clients s)\<rparr>;
            s2 = Client_log usr (Log Info Leave ''Left session'') s1;
            s3 = s2\<lparr>departed := departed s2 @ [usr\<lparr>attached := False, historyPosition := - 1\<rparr>]\<rparr>
        in (case (if cid usr = initUser s3 \<and> state s3 = Reset then abortReset P s3 else Some s3) of
              None \<Rightarrow> None
            | Some s4 \<Rightarrow>
                let s5 = addToHistory P (Msg (cid usr) UserLeave) s4;
                    s6 = s5\<lparr>history := reserveId (cid usr) (history s5)\<rparr>;
                    s7 = ensureOperatorExists P s6;
                    s8 = (if clients s7 = [] then setClosed P False s7 else s7)
                in Some (historyCacheCleanup s8)))"

text \<open>
  What a client that has just left is sent and logs (it has no session any more, so the
  entry goes to the server's log only).
\<close>

definition afterLeaving :: "(client \<Rightarrow> client) \<Rightarrow> session \<Rightarrow> session" where
  "afterLeaving f s =
     (case rev (departed s) of
        [] \<Rightarrow> s
      | c # cs \<Rightarrow> s\<lparr>departed := rev cs @ [f c]\<rparr>)"

definition disconnectError :: "ext \<Rightarrow> nat \<Rightarrow> string \<Rightarrow> session \<Rightarrow> session option" where
  "disconnectError P i txt s =
     (if i \<ge> length (clients s) then None
      else
        let usr = (clients s ! i)\<lparr>attached := False\<rparr>
        in map_option
             (\<lambda>s1. afterLeaving (sendDirectMessage (Msg 0 (Disconnect ERROR txt)))
                      (Client_log usr (Log Warn Leave (''Disconnected due to error: '' @ txt)) s1))
             (removeUser P i s))"

definition disconnectKick :: "ext \<Rightarrow> nat \<Rightarrow> string \<Rightarrow> session \<Rightarrow> session option" where
  "disconnectKick P i kickedBy s =
     (if i \<ge> length (clients s) then None
      else
        map_option (afterLeaving (sendDirectMessage (Msg 0 (Disconnect KICK kickedBy))))
          (removeUser P i
             (Client_log (clients s ! i) (Log Info Kick (''Kicked by '' @ kickedBy)) s)))"

text \<open>\<^verbatim>\<open>Session::changeOpStatus\<close>.\<close>

definition changeOpStatus :: "ext \<Rightarrow> int \<Rightarrow> bool \<Rightarrow> string \<Rightarrow> session \<Rightarrow> session option" where
  "changeOpStatus P i op changedBy s =
     (case changeOpStatusLoop i op changedBy s of
        (s1, ids, kick) \<Rightarrow>
          let s2 = addToHistory P (Msg 0 (SessionOwner ids)) s1
          in (case kick of
                None \<Rightarrow> Some s2
              | Some k \<Rightarrow> disconnectError P k ''De-opped while resetting'' s2))"



text \<open>
  \<^verbatim>\<open>Session::joinUser\<close>, line after line. The new client becomes the last of the list,
  at the index \<open>i\<close>. The entries of the server's log that are sent first are those of
  this session at the level Info or above, oldest first. The \<^verbatim>\<open>Q_ASSERT\<close> on the state
  is that of a debug build.
\<close>

definition attachUser :: "client \<Rightarrow> session \<Rightarrow> session" where
  "attachUser usr s = s\<lparr>clients := clients s @ [usr\<lparr>attached := True, historyPosition := - 1\<rparr>]\<rparr>"

definition sendSessionLog :: "nat \<Rightarrow> session \<Rightarrow> session" where
  "sendSessionLog i s =
     foldl (\<lambda>s' l. sendTo i (makeLogMessage l) s') s
       (filter (\<lambda>l. inSession l \<and> levelNum (level l) \<le> levelNum Info) (serverlog s))"

definition tellCatchup :: "bool \<Rightarrow> nat \<Rightarrow> session \<Rightarrow> session" where
  "tellCatchup host i s =
     (if host then s\<lparr>initUser := cid (clients s ! i)\<rparr>
      else sendTo i (catchupMessage (lastIndex (history s) - firstIndex (history s))) s)"

definition sendWelcome :: "nat \<Rightarrow> session \<Rightarrow> session" where
  "sendWelcome i s =
     (if welcomeMessage s \<noteq> [] then sendTo i (systemChat (welcomeMessage s)) s else s)"

definition announceJoin :: "ext \<Rightarrow> nat \<Rightarrow> session \<Rightarrow> session" where
  "announceJoin P i s = addToHistory P (joinMessage (clients s ! i)) s"

definition restoreOperator :: "ext \<Rightarrow> nat \<Rightarrow> session \<Rightarrow> session" where
  "restoreOperator P i s =
     (if isOperator (clients s ! i) \<or> username (clients s ! i) \<in> set (opNames (history s))
      then grantOpStatus P (cid (clients s ! i)) ''the server'' s else s)"

definition restoreTrusted :: "ext \<Rightarrow> nat \<Rightarrow> session \<Rightarrow> session" where
  "restoreTrusted P i s =
     (if username (clients s ! i) \<in> set (trustedNames (history s))
      then changeTrustedStatus P (cid (clients s ! i)) True ''the server'' s else s)"

definition rememberId :: "nat \<Rightarrow> session \<Rightarrow> session" where
  "rememberId i s =
     s\<lparr>history := setIdForName (cid (clients s ! i)) (username (clients s ! i)) (history s)\<rparr>"

definition logJoined :: "nat \<Rightarrow> session \<Rightarrow> session" where
  "logJoined i s = Client_log (clients s ! i) (Log Info Join ''Joined session'') s"

definition joinUser :: "ext \<Rightarrow> client \<Rightarrow> bool \<Rightarrow> session \<Rightarrow> session" where
  "joinUser P usr host s =
     (let i = length (clients s)
      in logJoined i
           (rememberId i
             (sendUpdatedMuteList
               (sendUpdatedBanlist P
                 (sendUpdatedAnnouncementList
                   (ensureOperatorExists P
                     (restoreTrusted P i
                       (restoreOperator P i
                         (announceJoin P i
                           (sendWelcome i
                             (tellCatchup host i
                               (sendSessionLog i
                                 (attachUser usr s)))))))))))))"

subsection \<open>The reset protocol\<close>

definition handleInitBegin :: "int \<Rightarrow> session \<Rightarrow> session" where
  "handleInitBegin ctxId s =
     (case getClientById s ctxId of
        None \<Rightarrow>
          Session_log (Log Error RuleBreak
            (''Non-existent user '' @ decimal ctxId @ '' sent init-begin'')) s
      | Some i \<Rightarrow>
          if ctxId \<noteq> initUser s then
            Client_log (clients s ! i) (Log Warn RuleBreak
              (''Sent init-begin, but init user is #'' @ decimal (initUser s))) s
          else
            let s1 = Client_log (clients s ! i) (Log Debug Status ''init-begin'') s
            in if resetstreamsize s1 > 0 then
                 (Client_log (clients s1 ! i) (Log Debug Status
                    (decimal (int (length (resetstream s1))) @ '' extra messages cleared by init-begin''))
                    s1)\<lparr>resetstream := [], resetstreamsize := 0\<rparr>
               else s1)"


definition handleInitCancel :: "ext \<Rightarrow> int \<Rightarrow> session \<Rightarrow> session option" where
  "handleInitCancel P ctxId s =
     (case getClientById s ctxId of
        None \<Rightarrow>
          Some (Session_log (Log Error RuleBreak
            (''Non-existent user '' @ decimal ctxId @ '' sent init-complete'')) s)
      | Some i \<Rightarrow>
          if ctxId \<noteq> initUser s then
            Some (Client_log (clients s ! i) (Log Warn RuleBreak
              (''Sent init-cancel, but init user is #'' @ decimal (initUser s))) s)
          else
            abortReset P (Client_log (clients s ! i) (Log Debug Status ''init-cancel'') s))"

text \<open>
  \<^verbatim>\<open>Session::resetSession\<close>; the two \<^verbatim>\<open>Q_ASSERT\<close>s are those of a debug build, and a
  resetter that is not connected is a null pointer that the last line follows.
\<close>

definition resetSession :: "ext \<Rightarrow> int \<Rightarrow> session \<Rightarrow> session option" where
  "resetSession P resetter s =
     (case switchState P Reset (s\<lparr>initUser := resetter\<rparr>) of
        None \<Rightarrow> None
      | Some s1 \<Rightarrow>
          (case getClientById s1 resetter of
             None \<Rightarrow> None
           | Some i \<Rightarrow>
               Some (sendTo i
                 (Msg 0 (ServerReply RESET ''Prepared to receive session data''
                           (Fields [(''state'', JStr ''init'')]))) s1)))"


subsection \<open>Messages and requests of a client\<close>

datatype JsonApiMethod = Get | Create | Update | Delete

datatype JsonApiStatus = Ok | BadRequest | NotFound | BadMethod

text \<open>
  \<^verbatim>\<open>Client::callJsonApi\<close>, for the client of index \<open>i\<close>: the status of the answer (its body,
  the description of the client, is left out) and the session.
\<close>

definition Client_callJsonApi ::
  "ext \<Rightarrow> JsonApiMethod \<Rightarrow> string list \<Rightarrow> jobject \<Rightarrow> nat \<Rightarrow> session
     \<Rightarrow> (JsonApiStatus \<times> session) option" where
  "Client_callJsonApi P method path request i s =
     (if path \<noteq> [] then Some (NotFound, s)
      else (case method of
              Delete \<Rightarrow> map_option (Pair Ok) (disconnectKick P i ''server operator'' s)
            | Update \<Rightarrow>
                let txt = toQString (jvalue request ''message'');
                    s1 = (if txt \<noteq> [] then sendTo i (systemChat txt) s else s)
                in if jcontains request ''op''
                      \<and> opFlag (clients s1 ! i) \<noteq> toBool (jvalue request ''op'')
                      \<and> attached (clients s1 ! i)
                   then map_option (Pair Ok)
                          (changeOpStatus P (cid (clients s1 ! i)) (toBool (jvalue request ''op''))
                             ''the server administrator'' s1)
                   else Some (Ok, s1)
            | Get \<Rightarrow> Some (Ok, s)
            | Create \<Rightarrow> Some (BadMethod, s)))"



section \<open>Notions used in the statements\<close>

text \<open>
  What \<^verbatim>\<open>Session::addToHistory\<close> sends to the client of index \<open>i\<close> before it looks at
  the auto-reset threshold: during initialization, the message itself to the hosting
  user when it is not a command.
\<close>

definition originEcho :: "ext \<Rightarrow> msg \<Rightarrow> session \<Rightarrow> nat \<Rightarrow> msg list" where
  "originEcho P m s i =
     (if state s = Initialization \<and> getClientById s (initUser s) = Some i \<and> \<not> isCommand P m
      then [m] else [])"


text \<open>
  What \<^verbatim>\<open>Writer::writeMessage\<close> writes for a message on a device that accepts the
  writes, and the interval and timestamp markers that \<^verbatim>\<open>Writer::recordMessage\<close> writes
  before a message when they are due.
\<close>

definition chunks :: "ext \<Rightarrow> Encoding \<Rightarrow> msg \<Rightarrow> string list" where
  "chunks P enc m =
     (if enc = Binary then [serialize P m]
      else (case body m of
              Filtered wrappedType wrappedLen wrapped \<Rightarrow>
                concat (map (\<lambda>l. [''# '', l, newline])
                  (splitOn (CHR 0x0A)
                    (case wrapped of
                       None \<Rightarrow> ''FILTERED: undecodable message type #'' @ decimal (int wrappedType)
                                @ '' of length '' @ decimal (int wrappedLen)
                     | Some txt \<Rightarrow> ''FILTERED: '' @ txt)))
            | _ \<Rightarrow> [toString P m, newline] @ (if body m = UndoPoint then [newline] else [])))"

definition dueMarkers :: "ext \<Rightarrow> int \<Rightarrow> writer \<Rightarrow> string list" where
  "dueMarkers P now w =
     (if minInterval w > 0 \<and> now - interval w \<ge> minInterval w
      then chunks P (encoding w) (Msg 0 (Interval (min 65535 (now - interval w)))) else [])
     @ (if timestampInterval w > 0 \<and> now - lastTimestamp w \<ge> timestampInterval w
        then chunks P (encoding w) (Msg 0 (Marker (dateString P now))) else [])"

text \<open>
  The session without its logging: the server's log emptied, and the log messages taken
  out of what was sent to the clients.
\<close>

definition isLogMessage :: "msg \<Rightarrow> bool" where
  "isLogMessage m = (case body m of ServerReply LOG txt d \<Rightarrow> True | _ \<Rightarrow> False)"

definition withoutLog :: "session \<Rightarrow> session" where
  "withoutLog s =
     s\<lparr>serverlog := [],
       clients := map (\<lambda>c. c\<lparr>sendqueue := filter (\<lambda>m. \<not> isLogMessage m) (sendqueue c)\<rparr>) (clients s)\<rparr>"

text \<open>
  An id names a connected operator; the grant of the reset to the client of an id (the
  confirmed request is sent to it, and the status becomes Requested); a sequence of
  calls of \<^verbatim>\<open>Session::readyToAutoReset\<close>.
\<close>

definition connectedOperator :: "session \<Rightarrow> int \<Rightarrow> bool" where
  "connectedOperator s i =
     (case getClientById s i of None \<Rightarrow> False | Some k \<Rightarrow> isOperator (clients s ! k))"

definition grantReset :: "int \<Rightarrow> session \<Rightarrow> session" where
  "grantReset i s =
     (case getClientById s i of
        None \<Rightarrow> s
      | Some k \<Rightarrow> (sendTo k (resetRequest False s) s)\<lparr>autoResetRequestStatus := Requested\<rparr>)"

definition readyCalls :: "int list \<Rightarrow> session \<Rightarrow> session" where
  "readyCalls ids s = foldl (\<lambda>s' i. readyToAutoReset i s') s ids"

text \<open>The configuration of a session, and of a step of \<^verbatim>\<open>Session::setSessionConfig\<close>.\<close>

definition confView ::
  "session \<Rightarrow> bool \<times> bool \<times> HFlag set \<times> string \<times> int \<times> nat \<times> string \<times> string" where
  "confView s = (closed s, authOnly s, flags (history s), title (history s), maxUsers (history s),
                 autoResetThreshold (history s), passwordHash (history s), opwordHash (history s))"

definition stepView ::
  "confstep \<Rightarrow> bool \<times> bool \<times> HFlag set \<times> string \<times> int \<times> nat \<times> string \<times> string" where
  "stepView = (\<lambda>(s, fl, ch). (closed s, authOnly s, fl, title (history s), maxUsers (history s),
                 autoResetThreshold (history s), passwordHash (history s), opwordHash (history s)))"



text \<open>
  \<open>follows s s'\<close>: the session \<open>s'\<close> has the state, the init user and the clients of \<open>s\<close>,
  each client with its id, with what it had been sent and more, and with the same cursor
  into the history; but for the hosting user of an initialization, whose cursor moves with
  the history.
\<close>

definition follows :: "session \<Rightarrow> session \<Rightarrow> bool" where
  "follows s s' =
     (state s' = state s \<and> initUser s' = initUser s \<and>
      length (clients s') = length (clients s) \<and>
      (\<forall>i < length (clients s).
         cid (clients s' ! i) = cid (clients s ! i) \<and>
         prefix (sendqueue (clients s ! i)) (sendqueue (clients s' ! i)) \<and>
         (historyPosition (clients s' ! i) = historyPosition (clients s ! i) \<or>
          state s = Initialization \<and> getClientById s (initUser s) = Some i)))"

text \<open>
  The operators of a session. \<open>noBypass\<close>: there is no way to become an operator without
  being granted the status, that is, no operator password and no promotion of the
  authenticated users. \<open>hasOperator\<close>: some connected client is an operator, or nobody
  is connected. \<open>confKept\<close> and \<open>opsGrow\<close> relate a session to a later one: the two
  settings are the same; and moreover the clients are as many and the operators still are.
\<close>

definition noBypass :: "session \<Rightarrow> bool" where
  "noBypass s = (opwordHash (history s) = [] \<and> \<not> authenticatedOperators (history s))"

definition hasOperator :: "session \<Rightarrow> bool" where
  "hasOperator s = (list_ex isOperator (clients s) \<or> clients s = [])"

definition confKept :: "session \<Rightarrow> session \<Rightarrow> bool" where
  "confKept s s' = (opwordHash (history s') = opwordHash (history s) \<and>
                    authenticatedOperators (history s') = authenticatedOperators (history s))"

definition opsGrow :: "session \<Rightarrow> session \<Rightarrow> bool" where
  "opsGrow s s' = (confKept s s' \<and> length (clients s') = length (clients s) \<and>
                   (\<forall>j < length (clients s). isOperator (clients s ! j) \<longrightarrow> isOperator (clients s' ! j)))"

section \<open>Sample values\<close>

text \<open>
  Concrete values on which the functions are evaluated. \<open>sampleExt\<close> is one protocol
  library: commands, replies and disconnects are control messages, which are not
  recorded; a drawing command is as long as its payload and a header of four bytes.
\<close>

definition sampleExt :: ext where
  "sampleExt =
     \<lparr>isCommand = (\<lambda>m. case body m of Other t p \<Rightarrow> 128 \<le> t | _ \<Rightarrow> False),
      isRecordable = (\<lambda>m. case body m of
                             ServerReply t x d \<Rightarrow> False
                           | ServerCommand c a k \<Rightarrow> False
                           | Disconnect r x \<Rightarrow> False
                           | _ \<Rightarrow> True),
      msgLength = (\<lambda>m. case body m of Other t p \<Rightarrow> 4 + length p | _ \<Rightarrow> 8),
      serialize = (\<lambda>m. case body m of Other t p \<Rightarrow> p | _ \<Rightarrow> ''message''),
      toString = (\<lambda>m. case body m of Other t p \<Rightarrow> p | _ \<Rightarrow> ''message''),
      dateString = decimal,
      hash = (\<lambda>p. if p = [] then [] else ''plain;'' @ p),
      effectiveAutoResetThreshold = autoResetThreshold,
      banlistToJson = (\<lambda>bans showIp. JArr []),
      messageName = (\<lambda>m. ''message''),
      recordingHeader = (\<lambda>e. ''header'')\<rparr>"

definition sampleClient :: "int \<Rightarrow> string \<Rightarrow> bool \<Rightarrow> client" where
  "sampleClient i name op =
     \<lparr>attached = True, cid = i, username = name, extAuthId = [], avatar = [],
      opFlag = op, isModerator = False, isTrusted = False, isAuthenticated = False,
      isMuted = False, historyPosition = - 1, holdqueue = [], sendqueue = [],
      transmitted = 0, peerAddress = ''192.0.2.1'', peerLoopback = False\<rparr>"

definition sampleHistory :: history where
  "sampleHistory =
     \<lparr>messages = [Msg 1 (Other 130 ''line'')], firstIndex = 0, lastIndex = 0, sizeInBytes = 8,
      sizeLimit = 0, autoResetThreshold = 0, autoResetThresholdBase = 0, flags = {},
      title = ''Sketches'', maxUsers = 25, passwordHash = [], opwordHash = [],
      authenticatedOperators = False, opNames = [], trustedNames = [], idNames = [],
      reservedIds = [], banlist = [], announcements = [], releasedBelow = 0\<rparr>"

definition sampleSession :: session where
  "sampleSession =
     \<lparr>state = Running, initUser = - 1,
      clients = [sampleClient 1 ''alice'' True, sampleClient 2 ''bob'' False],
      history = sampleHistory, resetstream = [], resetstreamsize = 0, closed = False,
      authOnly = False, autoResetRequestStatus = NotSent, recorder = None, recordingFile = [],
      publicListings = [], serverlog = [], departed = [], clock = 50000, lastEventTime = 0,
      lastStatusUpdate = 45000, welcomeMessage = [], enablePersistence = False,
      recordingOpenable = True\<rparr>"

definition sampleWriter :: writer where
  "sampleWriter =
     \<lparr>outfile = \<lparr>isOpen = True, openable = True, failing = False, written = [''header'']\<rparr>,
      minInterval = 0, interval = 0, timestampInterval = 0, lastTimestamp = 0,
      autoflush = True, encoding = Binary\<rparr>"



definition emptySession :: session where
  "emptySession = sampleSession\<lparr>clients := []\<rparr>"

section \<open>Properties\<close>

lemma findIndex_Some: "findIndex p xs = Some i \<Longrightarrow> i < length xs \<and> p (xs ! i)"
  by (induction xs arbitrary: i) (auto split: if_splits)

lemma getClientById_less: "getClientById s i = Some k \<Longrightarrow> k < length (clients s)"
  by (simp add: getClientById_def findIndex_Some)

lemmas send_defs = directToAll_def messageAll_def Session_log_def Client_log_def sendTo_def Let_def

lemma notifyOrigin_cases:
  "(notifyOrigin P m s = s \<and> (\<forall>i. originEcho P m s i = [])) \<or>
   (\<exists>k < length (clients s).
      getClientById s (initUser s) = Some k \<and> state s = Initialization \<and>
      notifyOrigin P m s =
        s\<lparr>clients := (clients s)
             [k := (clients s ! k)\<lparr>historyPosition := lastIndex (history s),
                     sendqueue := sendqueue (clients s ! k) @ originEcho P m s k\<rparr>]\<rparr>)"
proof (cases "state s = Initialization")
  case False
  then show ?thesis by (simp add: notifyOrigin_def originEcho_def)
next
  case init: True
  show ?thesis
  proof (cases "getClientById s (initUser s)")
    case None
    then show ?thesis by (simp add: notifyOrigin_def originEcho_def)
  next
    case (Some k)
    then have k: "k < length (clients s)" by (rule getClientById_less)
    have "notifyOrigin P m s =
        s\<lparr>clients := (clients s)
             [k := (clients s ! k)\<lparr>historyPosition := lastIndex (history s),
                     sendqueue := sendqueue (clients s ! k) @ originEcho P m s k\<rparr>]\<rparr>"
      using Some init k
      by (simp add: notifyOrigin_def originEcho_def sendTo_def sendDirectMessage_def Let_def)
    with Some init k show ?thesis by blast
  qed
qed





lemma notifyOrigin_fields [simp]:
  "history (notifyOrigin P m s) = history s"
  "autoResetRequestStatus (notifyOrigin P m s) = autoResetRequestStatus s"
  "clock (notifyOrigin P m s) = clock s"
  "lastStatusUpdate (notifyOrigin P m s) = lastStatusUpdate s"
  "recorder (notifyOrigin P m s) = recorder s"
  by (auto simp: notifyOrigin_def sendTo_def Let_def split: option.splits)

lemma mirrorToRecorder_fields [simp]:
  "history (mirrorToRecorder P m s) = history s"
  "autoResetRequestStatus (mirrorToRecorder P m s) = autoResetRequestStatus s"
  "clock (mirrorToRecorder P m s) = clock s"
  "lastStatusUpdate (mirrorToRecorder P m s) = lastStatusUpdate s"
  "clients (mirrorToRecorder P m s) = clients s"
  by (auto simp: mirrorToRecorder_def split: option.splits)

lemma Session_log_fields [simp]:
  "history (Session_log l s) = history s"
  "autoResetRequestStatus (Session_log l s) = autoResetRequestStatus s"
  "clock (Session_log l s) = clock s"
  "lastStatusUpdate (Session_log l s) = lastStatusUpdate s"
  "recorder (Session_log l s) = recorder s"
  "length (clients (Session_log l s)) = length (clients s)"
  by (auto simp: Session_log_def directToAll_def Let_def)

lemma statusUpdate_fields [simp]:
  "history (statusUpdate s) = history s"
  "autoResetRequestStatus (statusUpdate s) = autoResetRequestStatus s"
  "recorder (statusUpdate s) = recorder s"
  "length (clients (statusUpdate s)) = length (clients s)"
  by (auto simp: statusUpdate_def directToAll_def)




lemma requestAutoReset_recorder [simp]: "recorder (requestAutoReset P s) = recorder s"
  by (simp add: requestAutoReset_def Let_def directToAll_def)

lemmas sample_defs = sampleExt_def sampleClient_def sampleHistory_def sampleSession_def
  sampleWriter_def

lemmas addToHistory_defs = addToHistory_def addMessage_def notifyOrigin_def
  mirrorToRecorder_def requestAutoReset_def statusUpdate_def Session_log_def
  directToAll_def sendDirectMessage_def Let_def Msg_def u8_def

subsection \<open>The history refuses a message\<close>

text \<open>
  Claim C5. For every message: in the Shutdown state \<^verbatim>\<open>addToHistory\<close> changes nothing.
  Otherwise, when the history rejects the append, the session is as before (so the
  history is unchanged, the recorder has not been handed the message and the auto-reset
  status is untouched) but for two messages sent to every client: that the history size
  limit is reached, and the warning that names the author, by the name of the first
  connected client with the message's context id or else as ``user #'' and that id.
\<close>

theorem addToHistory_rejected:
  "(state s = Shutdown \<longrightarrow> addToHistory P m s = s) \<and>
   (state s \<noteq> Shutdown \<and> addMessage P m (history s) = None \<longrightarrow>
      addToHistory P m s =
        s\<lparr>clients := map (\<lambda>c. c\<lparr>sendqueue := sendqueue c @
              [Msg 0 (ServerReply MESSAGE ''History size limit reached!'' (Fields [])),
               Msg 0 (ServerReply MESSAGE
                 ((case getClientById s (contextId m) of
                     Some i \<Rightarrow> username (clients s ! i)
                   | None \<Rightarrow> ''user #'' @ decimal (contextId m))
                  @ '' broke the camel'' @ apostrophe
                  @ ''s back. Session must be reset to continue drawing.'') (Fields []))]\<rparr>)
            (clients s)\<rparr>)"
  by (simp add: addToHistory_def historyLimitReached_def messageAll_def directToAll_def
        sendDirectMessage_def Let_def o_def)

theorem addToHistory_rejected_witness:
  "addToHistory sampleExt (Msg 7 (Other 130 ''dot'')) (sampleSession\<lparr>state := Shutdown\<rparr>)
     = sampleSession\<lparr>state := Shutdown\<rparr> \<and>
   addMessage sampleExt (Msg 7 (Other 130 ''dot''))
     (history (sampleSession\<lparr>history := sampleHistory\<lparr>sizeLimit := 10\<rparr>\<rparr>)) = None \<and>
   map sendqueue (clients (addToHistory sampleExt (Msg 7 (Other 130 ''dot''))
      (sampleSession\<lparr>history := sampleHistory\<lparr>sizeLimit := 10\<rparr>\<rparr>))) =
     [[Msg 0 (ServerReply MESSAGE ''History size limit reached!'' (Fields [])),
       Msg 0 (ServerReply MESSAGE
         (''user #7 broke the camel'' @ apostrophe
            @ ''s back. Session must be reset to continue drawing.'') (Fields []))],
      [Msg 0 (ServerReply MESSAGE ''History size limit reached!'' (Fields [])),
       Msg 0 (ServerReply MESSAGE
         (''user #7 broke the camel'' @ apostrophe
            @ ''s back. Session must be reset to continue drawing.'') (Fields []))]]"
  using addToHistory_rejected[of "sampleSession\<lparr>state := Shutdown\<rparr>" sampleExt "Msg 7 (Other 130 ''dot'')"]
        addToHistory_rejected[of "sampleSession\<lparr>history := sampleHistory\<lparr>sizeLimit := 10\<rparr>\<rparr>"
           sampleExt "Msg 7 (Other 130 ''dot'')"]
  by (simp add: sample_defs addMessage_def getClientById_def Msg_def u8_def decimal_def
        digits.simps)

subsection \<open>The auto-reset query\<close>



subsection \<open>Recording\<close>

lemma writeCommentLines_ok:
  "\<not> failing d \<Longrightarrow>
   writeCommentLines ls d = (True, d\<lparr>written := written d @ concat (map (\<lambda>l. [''# '', l, newline]) ls)\<rparr>)"
  by (induction ls arbitrary: d) (simp_all add: devWrite_def newline_def)

lemma writeMessage_ok:
  assumes "\<not> failing (outfile w)"
  shows "writeMessage P m w =
           (True, w\<lparr>outfile := (outfile w)\<lparr>written := written (outfile w) @ chunks P (encoding w) m\<rparr>\<rparr>)"
proof (cases "encoding w")
  case Binary
  then show ?thesis using assms by (simp add: writeMessage_def chunks_def devWrite_def)
next
  case Text
  show ?thesis
  proof (cases "\<exists>t l d. body m = Filtered t l d")
    case True
    then obtain t l d where f: "body m = Filtered t l d" by blast
    show ?thesis using assms Text f
      by (simp add: writeMessage_def chunks_def writeComment_def writeCommentLines_ok)
  next
    case False
    then show ?thesis using assms Text
      by (cases "body m") (simp_all add: writeMessage_def chunks_def devWrite_def newline_def)
  qed
qed

lemma writeMessage_snd:
  "\<not> failing (outfile w) \<Longrightarrow>
   snd (writeMessage P m w) =
     w\<lparr>outfile := (outfile w)\<lparr>written := written (outfile w) @ chunks P (encoding w) m\<rparr>\<rparr>"
  by (simp add: writeMessage_ok)

lemma recordMessage_ok:
  assumes "\<not> failing (outfile w)" and "isRecordable P m"
  shows "written (outfile (recordMessage P now m w)) =
           written (outfile w) @ dueMarkers P now w @ chunks P (encoding w) m"
proof -
  define w1 where "w1 = (if minInterval w > 0 then
                    (if now - interval w \<ge> minInterval w
                     then snd (writeMessage P (Msg 0 (Interval (min 65535 (now - interval w)))) w)
                     else w)\<lparr>interval := now\<rparr>
                  else w)"
  define w2 where "w2 = (if timestampInterval w1 > 0 \<and> now - lastTimestamp w1 \<ge> timestampInterval w1
                  then (snd (writeMessage P (Msg 0 (Marker (dateString P now))) w1))
                         \<lparr>lastTimestamp := now\<rparr>
                  else w1)"
  have r: "recordMessage P now m w = snd (writeMessage P m w2)"
    using assms(2) by (simp add: recordMessage_def w1_def w2_def Let_def)
  have w1: "\<not> failing (outfile w1)" "encoding w1 = encoding w"
    "timestampInterval w1 = timestampInterval w" "lastTimestamp w1 = lastTimestamp w"
    "written (outfile w1) = written (outfile w)
       @ (if minInterval w > 0 \<and> now - interval w \<ge> minInterval w
          then chunks P (encoding w) (Msg 0 (Interval (min 65535 (now - interval w)))) else [])"
    using assms(1) by (simp_all add: w1_def writeMessage_snd)
  have w2: "\<not> failing (outfile w2)" "encoding w2 = encoding w"
    "written (outfile w2) = written (outfile w) @ dueMarkers P now w"
    using w1 by (simp_all add: w2_def writeMessage_snd dueMarkers_def)
  show ?thesis
    unfolding r using w2 by (simp add: writeMessage_snd)
qed

text \<open>
  Claim C8, as amended. With a recorder, \<^verbatim>\<open>addToHistory\<close> hands every message it has
  appended to \<^verbatim>\<open>recordMessage\<close>. This one writes nothing for a message that is not
  recordable; for a recordable message, on a device that accepts the writes, it appends
  the markers that are due and then the message (its serialization in the binary
  encoding; its text line, or comment lines for a filtered message, in the text encoding).
\<close>

theorem addToHistory_mirrors:
  assumes "state s \<noteq> Shutdown" and "addMessage P m (history s) = Some h"
      and "recorder s = Some w"
  shows "recorder (addToHistory P m s) = Some (recordMessage P (clock s) m w) \<and>
         (\<not> isRecordable P m \<longrightarrow> recordMessage P (clock s) m w = w) \<and>
         (isRecordable P m \<and> \<not> failing (outfile w) \<longrightarrow>
            written (outfile (recordMessage P (clock s) m w)) =
              written (outfile w) @ dueMarkers P (clock s) w @ chunks P (encoding w) m)"
proof (intro conjI impI)
  show "recorder (addToHistory P m s) = Some (recordMessage P (clock s) m w)"
    using assms by (simp add: addToHistory_def mirrorToRecorder_def)
  show "\<not> isRecordable P m \<Longrightarrow> recordMessage P (clock s) m w = w"
    by (simp add: recordMessage_def)
  show "isRecordable P m \<and> \<not> failing (outfile w) \<Longrightarrow>
            written (outfile (recordMessage P (clock s) m w)) =
              written (outfile w) @ dueMarkers P (clock s) w @ chunks P (encoding w) m"
    by (simp add: recordMessage_ok)
qed

theorem addToHistory_mirrors_witness:
  "addMessage sampleExt (Msg 2 (Other 130 ''dot''))
     (history (sampleSession\<lparr>recorder := Some sampleWriter\<rparr>)) \<noteq> None \<and>
   isRecordable sampleExt (Msg 2 (Other 130 ''dot'')) \<and>
   map_option (\<lambda>w. written (outfile w))
     (recorder (addToHistory sampleExt (Msg 2 (Other 130 ''dot''))
        (sampleSession\<lparr>recorder := Some sampleWriter\<rparr>))) = Some [''header'', ''dot'']"
  using addToHistory_mirrors
          [of "sampleSession\<lparr>recorder := Some sampleWriter\<rparr>" sampleExt "Msg 2 (Other 130 ''dot'')"
              "sampleHistory\<lparr>messages := messages sampleHistory @ [Msg 2 (Other 130 ''dot'')],
                 lastIndex := 1, sizeInBytes := 15\<rparr>" sampleWriter]
  by (simp add: sample_defs addToHistory_defs dueMarkers_def chunks_def)

text \<open>
  The claim as stated fails on a message that is not recordable: the message is appended
  with a recorder at work, and the recording is as before.
\<close>

theorem addToHistory_mirrors_counterexample:
  "state (sampleSession\<lparr>recorder := Some sampleWriter\<rparr>) = Running \<and>
   recorder (sampleSession\<lparr>recorder := Some sampleWriter\<rparr>) = Some sampleWriter \<and>
   messages (history (addToHistory sampleExt (Msg 0 (ServerReply MESSAGE ''Hello'' (Fields [])))
      (sampleSession\<lparr>recorder := Some sampleWriter\<rparr>)))
     = messages sampleHistory @ [Msg 0 (ServerReply MESSAGE ''Hello'' (Fields []))] \<and>
   map_option (\<lambda>w. written (outfile w))
     (recorder (addToHistory sampleExt (Msg 0 (ServerReply MESSAGE ''Hello'' (Fields [])))
        (sampleSession\<lparr>recorder := Some sampleWriter\<rparr>)))
     = Some (written (outfile sampleWriter))"
  by (simp add: sample_defs addToHistory_defs recordMessage_def)

subsection \<open>The first answer to the auto-reset query\<close>

lemma isLogMessage_makeLogMessage [simp]: "isLogMessage (makeLogMessage l)"
  by (simp add: isLogMessage_def makeLogMessage_def Msg_def)

lemma isLogMessage_resetRequest [simp]: "\<not> isLogMessage (resetRequest q s)"
  by (simp add: isLogMessage_def resetRequest_def Msg_def)

lemma withoutLog_Session_log [simp]: "withoutLog (Session_log l s) = withoutLog s"
  by (simp add: withoutLog_def Session_log_def directToAll_def sendDirectMessage_def Let_def o_def)

lemma getClientById_Session_log [simp]: "getClientById (Session_log l s) i = getClientById s i"
proof -
  have "findIndex (\<lambda>c. cid c = i) (map (sendDirectMessage m) cs) = findIndex (\<lambda>c. cid c = i) cs" for m cs
    by (induction cs) (simp_all add: sendDirectMessage_def)
  then show ?thesis
    by (simp add: getClientById_def Session_log_def directToAll_def Let_def)
qed

lemma isOperator_Session_log [simp]:
  "k < length (clients s) \<Longrightarrow> isOperator (clients (Session_log l s) ! k) = isOperator (clients s ! k)"
  by (simp add: Session_log_def directToAll_def Let_def isOperator_def sendDirectMessage_def)

lemma connectedOperator_Session_log [simp]:
  "connectedOperator (Session_log l s) i = connectedOperator s i"
  by (auto simp: connectedOperator_def dest: getClientById_less split: option.splits)

lemma resetRequest_Session_log [simp]: "resetRequest q (Session_log l s) = resetRequest q s"
  by (simp add: resetRequest_def)

lemma withoutLog_grant_log: "withoutLog (grantReset i (Session_log l s)) = withoutLog (grantReset i s)"
proof (cases "getClientById s i")
  case None
  then show ?thesis by (simp add: grantReset_def)
next
  case (Some k)
  then have k: "k < length (clients s)" by (rule getClientById_less)
  have g: "getClientById (Session_log l s) i = Some k" using Some by simp
  have 1: "grantReset i (Session_log l s) =
        (sendTo k (resetRequest False s) (Session_log l s))\<lparr>autoResetRequestStatus := Requested\<rparr>"
    using g by (simp add: grantReset_def)
  have 2: "grantReset i s = (sendTo k (resetRequest False s) s)\<lparr>autoResetRequestStatus := Requested\<rparr>"
    by (simp add: grantReset_def Some)
  show ?thesis unfolding 1 2 using k
    by (simp add: withoutLog_def sendTo_def Session_log_def directToAll_def
          sendDirectMessage_def Let_def map_update o_def)
qed

lemma readyToAutoReset_accept:
  assumes "connectedOperator s i" and "autoResetRequestStatus s = Queried"
  shows "withoutLog (readyToAutoReset i s) = withoutLog (grantReset i s) \<and>
         autoResetRequestStatus (readyToAutoReset i s) = Requested"
proof -
  obtain k where k: "getClientById s i = Some k" "isOperator (clients s ! k)"
    using assms(1) by (auto simp: connectedOperator_def split: option.splits)
  let ?l = "Log Info Status (''User '' @ decimal i @ '' responded to autoreset request first'')"
  have "readyToAutoReset i s = grantReset i (Session_log ?l s)"
    using k assms(2) by (simp add: readyToAutoReset_def grantReset_def Let_def)
  moreover have "autoResetRequestStatus (grantReset i (Session_log ?l s)) = Requested"
    using k by (simp add: grantReset_def)
  ultimately show ?thesis by (simp add: withoutLog_grant_log)
qed

lemma readyToAutoReset_reject:
  assumes "\<not> connectedOperator s i \<or> autoResetRequestStatus s \<noteq> Queried"
  shows "withoutLog (readyToAutoReset i s) = withoutLog s \<and>
         autoResetRequestStatus (readyToAutoReset i s) = autoResetRequestStatus s \<and>
         connectedOperator (readyToAutoReset i s) = connectedOperator s"
proof -
  have "\<exists>l. readyToAutoReset i s = Session_log l s"
    using assms
    by (auto simp: readyToAutoReset_def connectedOperator_def Let_def split: option.splits)
  then obtain l where "readyToAutoReset i s = Session_log l s" ..
  then show ?thesis by (simp add: fun_eq_iff)
qed

lemma readyCalls_late:
  "autoResetRequestStatus s \<noteq> Queried \<Longrightarrow>
   withoutLog (readyCalls ids s) = withoutLog s \<and>
   autoResetRequestStatus (readyCalls ids s) = autoResetRequestStatus s"
proof (induction ids arbitrary: s)
  case Nil
  then show ?case by (simp add: readyCalls_def)
next
  case (Cons i ids)
  have r: "withoutLog (readyToAutoReset i s) = withoutLog s"
       "autoResetRequestStatus (readyToAutoReset i s) = autoResetRequestStatus s"
    using readyToAutoReset_reject[of s i] Cons.prems by simp_all
  have "readyCalls (i # ids) s = readyCalls ids (readyToAutoReset i s)"
    by (simp add: readyCalls_def)
  then show ?case using Cons.IH[of "readyToAutoReset i s"] r Cons.prems by simp
qed

text \<open>
  Claim C3. From the status Queried, a sequence of calls of \<^verbatim>\<open>readyToAutoReset\<close> leaves
  the session, logging apart, as the grant to the first id of the sequence that names a
  connected operator leaves it, with the status Requested; with no such id it leaves the
  session, logging apart, as it was, with the status Queried. Every other call thus
  changes nothing but the log.
\<close>

theorem readyToAutoReset_single_grant:
  assumes "autoResetRequestStatus s = Queried"
  shows "(case find (connectedOperator s) ids of
            None \<Rightarrow> withoutLog (readyCalls ids s) = withoutLog s \<and>
                    autoResetRequestStatus (readyCalls ids s) = Queried
          | Some i \<Rightarrow> withoutLog (readyCalls ids s) = withoutLog (grantReset i s) \<and>
                      autoResetRequestStatus (readyCalls ids s) = Requested)"
  using assms
proof (induction ids arbitrary: s)
  case Nil
  then show ?case by (simp add: readyCalls_def)
next
  case (Cons i ids)
  have step: "readyCalls (i # ids) s = readyCalls ids (readyToAutoReset i s)"
    by (simp add: readyCalls_def)
  show ?case
  proof (cases "connectedOperator s i")
    case True
    have a: "withoutLog (readyToAutoReset i s) = withoutLog (grantReset i s)"
            "autoResetRequestStatus (readyToAutoReset i s) = Requested"
      using readyToAutoReset_accept[OF True Cons.prems] by simp_all
    have "withoutLog (readyCalls ids (readyToAutoReset i s)) = withoutLog (readyToAutoReset i s) \<and>
          autoResetRequestStatus (readyCalls ids (readyToAutoReset i s)) = Requested"
      using readyCalls_late[of "readyToAutoReset i s" ids] a(2) by simp
    then show ?thesis using True a step by simp
  next
    case False
    have r: "withoutLog (readyToAutoReset i s) = withoutLog s"
       "autoResetRequestStatus (readyToAutoReset i s) = Queried"
       "connectedOperator (readyToAutoReset i s) = connectedOperator s"
      using readyToAutoReset_reject[of s i] False Cons.prems by simp_all
    obtain l where l: "readyToAutoReset i s = Session_log l s"
      using False by (auto simp: readyToAutoReset_def connectedOperator_def Let_def split: option.splits)
    have g: "withoutLog (grantReset j (readyToAutoReset i s)) = withoutLog (grantReset j s)" for j
      unfolding l by (rule withoutLog_grant_log)
    show ?thesis
      using Cons.IH[OF r(2)] False r g step
      by (simp split: option.splits)
  qed
qed

theorem readyToAutoReset_single_grant_witness:
  "find (connectedOperator (sampleSession\<lparr>autoResetRequestStatus := Queried\<rparr>)) [9, 2, 1, 1] = Some 1 \<and>
   autoResetRequestStatus
     (readyCalls [9, 2, 1, 1] (sampleSession\<lparr>autoResetRequestStatus := Queried\<rparr>)) = Requested \<and>
   map sendqueue (clients (withoutLog
     (readyCalls [9, 2, 1, 1] (sampleSession\<lparr>autoResetRequestStatus := Queried\<rparr>)))) =
     [[Msg 0 (ServerReply RESETREQUEST [] (Fields [(''maxSize'', JNum 0), (''query'', JBool False)]))],
      []]"
  using readyToAutoReset_single_grant
          [of "sampleSession\<lparr>autoResetRequestStatus := Queried\<rparr>" "[9, 2, 1, 1]"]
  by (simp add: sample_defs connectedOperator_def getClientById_def isOperator_def grantReset_def
        withoutLog_def sendTo_def sendDirectMessage_def resetRequest_def Msg_def u8_def
        isLogMessage_def)

subsection \<open>The sparse configuration patch\<close>

lemma confView_directToAll [simp]: "confView (directToAll m s) = confView s"
  by (simp add: confView_def directToAll_def)

lemma confView_messageAll [simp]: "confView (messageAll t a s) = confView s"
  by (simp add: messageAll_def)

lemma confView_Session_log [simp]: "confView (Session_log l s) = confView s"
  by (simp add: confView_def send_defs)

lemma confView_Client_log [simp]: "confView (Client_log c l s) = confView s"
  by (simp add: confView_def send_defs)

lemma confView_notifyOrigin [simp]: "confView (notifyOrigin P m s) = confView s"
  by (simp add: notifyOrigin_def confView_def send_defs split: option.splits)

lemma confView_mirrorToRecorder [simp]: "confView (mirrorToRecorder P m s) = confView s"
  by (simp add: mirrorToRecorder_def confView_def split: option.splits)

lemma confView_requestAutoReset [simp]: "confView (requestAutoReset P s) = confView s"
  by (simp add: requestAutoReset_def confView_def send_defs)

lemma confView_statusUpdate [simp]: "confView (statusUpdate s) = confView s"
  by (simp add: statusUpdate_def confView_def send_defs)

lemma confView_addToHistory [simp]: "confView (addToHistory P m s) = confView s"
proof (cases "addMessage P m (history s)")
  case None
  then show ?thesis by (simp add: addToHistory_def historyLimitReached_def Let_def)
next
  case (Some h)
  then have "confView (s\<lparr>history := h\<rparr>) = confView s"
    by (auto simp: addMessage_def confView_def split: if_splits)
  then show ?thesis using Some by (simp add: addToHistory_def)
qed

lemma confView_confFinish:
  "confView (confFinish P cb (s, fl, ch)) = confView (s\<lparr>history := (history s)\<lparr>flags := fl\<rparr>\<rparr>)"
  by (simp add: confFinish_def Let_def sendUpdatedSessionProperties_def split: option.splits)

lemma stepView_steps:
  "stepView (confPersistent conf x) =
     (case stepView x of (c, a, f, t, m, r, p, ow) \<Rightarrow>
        (c, a, if jcontains conf ''persistent''
               then setFlag f Persistent (toBool (jvalue conf ''persistent'') \<and> enablePersistence (fst x))
               else f, t, m, r, p, ow))"
  "stepView (confTitle conf x) =
     (case stepView x of (c, a, f, t, m, r, p, ow) \<Rightarrow>
        (c, a, f, if jcontains conf ''title'' then take 100 (toQString (jvalue conf ''title'')) else t,
         m, r, p, ow))"
  "stepView (confMaxUserCount conf x) =
     (case stepView x of (c, a, f, t, m, r, p, ow) \<Rightarrow>
        (c, a, f, t, if jcontains conf ''maxUserCount'' then toInt (jvalue conf ''maxUserCount'') else m,
         r, p, ow))"
  "stepView (confResetThreshold conf x) =
     (case stepView x of (c, a, f, t, m, r, p, ow) \<Rightarrow>
        (c, a, f, t, m,
         if jcontains conf ''resetThreshold''
         then nat (toInt (jvalue conf ''resetThreshold'') mod 4294967296) else r, p, ow))"
  "stepView (confPassword P conf x) =
     (case stepView x of (c, a, f, t, m, r, p, ow) \<Rightarrow>
        (c, a, f, t, m, r,
         if jcontains conf ''password'' then hash P (toQString (jvalue conf ''password'')) else p, ow))"
  "stepView (confOpword P conf x) =
     (case stepView x of (c, a, f, t, m, r, p, ow) \<Rightarrow>
        (c, a, f, t, m, r, p,
         if jcontains conf ''opword'' then hash P (toQString (jvalue conf ''opword'')) else ow))"
  "stepView (confPreserveChat conf x) =
     (case stepView x of (c, a, f, t, m, r, p, ow) \<Rightarrow>
        (c, a, if jcontains conf ''preserveChat''
               then setFlag f PreserveChat (toBool (jvalue conf ''preserveChat'')) else f,
         t, m, r, p, ow))"
  "stepView (confNsfm conf x) =
     (case stepView x of (c, a, f, t, m, r, p, ow) \<Rightarrow>
        (c, a, if jcontains conf ''nsfm'' then setFlag f Nsfm (toBool (jvalue conf ''nsfm'')) else f,
         t, m, r, p, ow))"
  "stepView (confDeputies conf x) =
     (case stepView x of (c, a, f, t, m, r, p, ow) \<Rightarrow>
        (c, a, if jcontains conf ''deputies''
               then setFlag f Deputies (toBool (jvalue conf ''deputies'')) else f,
         t, m, r, p, ow))"
  by (cases x; simp add: stepView_def confPersistent_def confTitle_def confMaxUserCount_def
        confResetThreshold_def confPassword_def confOpword_def confPreserveChat_def confNsfm_def
        confDeputies_def)+

lemma confView_confFinish':
  "confView (confFinish P cb x) = stepView x"
proof (cases x)
  case (fields s fl ch)
  show ?thesis unfolding fields confView_confFinish by (simp add: stepView_def confView_def)
qed

lemma confHead:
  "confAuthOnly conf changedBy (confClosed conf (s, [])) =
     (s\<lparr>closed := (if jcontains conf ''closed'' then toBool (jvalue conf ''closed'') else closed s),
        authOnly := (if jcontains conf ''authOnly'' \<and>
                        (\<not> toBool (jvalue conf ''authOnly'') \<or> changedBy = None \<or>
                         (case changedBy of Some c \<Rightarrow> isAuthenticated c | None \<Rightarrow> True))
                     then toBool (jvalue conf ''authOnly'') else authOnly s)\<rparr>,
      snd (confAuthOnly conf changedBy (confClosed conf (s, []))))"
  by (simp add: confAuthOnly_def confClosed_def Let_def)

lemma setSessionConfig_view:
  "confView (setSessionConfig P conf changedBy s) =
    (if jcontains conf ''closed'' then toBool (jvalue conf ''closed'') else closed s,
     if jcontains conf ''authOnly'' \<and>
          (\<not> toBool (jvalue conf ''authOnly'') \<or> changedBy = None \<or>
           (case changedBy of Some c \<Rightarrow> isAuthenticated c | None \<Rightarrow> True))
     then toBool (jvalue conf ''authOnly'') else authOnly s,
     (let f1 = (if jcontains conf ''persistent''
                then setFlag (flags (history s)) Persistent
                       (toBool (jvalue conf ''persistent'') \<and> enablePersistence s)
                else flags (history s));
          f2 = (if jcontains conf ''preserveChat''
                then setFlag f1 PreserveChat (toBool (jvalue conf ''preserveChat'')) else f1);
          f3 = (if jcontains conf ''nsfm'' then setFlag f2 Nsfm (toBool (jvalue conf ''nsfm'')) else f2)
      in if jcontains conf ''deputies'' then setFlag f3 Deputies (toBool (jvalue conf ''deputies''))
         else f3),
     if jcontains conf ''title'' then take 100 (toQString (jvalue conf ''title'')) else title (history s),
     if jcontains conf ''maxUserCount'' then toInt (jvalue conf ''maxUserCount'')
     else maxUsers (history s),
     if jcontains conf ''resetThreshold''
     then nat (toInt (jvalue conf ''resetThreshold'') mod 4294967296)
     else autoResetThreshold (history s),
     if jcontains conf ''password'' then hash P (toQString (jvalue conf ''password''))
     else passwordHash (history s),
     if jcontains conf ''opword'' then hash P (toQString (jvalue conf ''opword''))
     else opwordHash (history s))"
  unfolding setSessionConfig_def
  apply (subst confHead)
  apply (simp only: prod.case confView_confFinish' stepView_steps)
  apply (simp only: stepView_def prod.case fst_conv Let_def)
  apply (simp cong: if_cong)
  done

lemma setSessionConfig_fields:
  "closed (setSessionConfig P conf changedBy s) =
     (if jcontains conf ''closed'' then toBool (jvalue conf ''closed'') else closed s)"
  "authOnly (setSessionConfig P conf changedBy s) =
     (if jcontains conf ''authOnly'' \<and>
          (\<not> toBool (jvalue conf ''authOnly'') \<or> changedBy = None \<or>
           (case changedBy of Some c \<Rightarrow> isAuthenticated c | None \<Rightarrow> True))
      then toBool (jvalue conf ''authOnly'') else authOnly s)"
  "flags (history (setSessionConfig P conf changedBy s)) =
     (let f1 = (if jcontains conf ''persistent''
                then setFlag (flags (history s)) Persistent
                       (toBool (jvalue conf ''persistent'') \<and> enablePersistence s)
                else flags (history s));
          f2 = (if jcontains conf ''preserveChat''
                then setFlag f1 PreserveChat (toBool (jvalue conf ''preserveChat'')) else f1);
          f3 = (if jcontains conf ''nsfm'' then setFlag f2 Nsfm (toBool (jvalue conf ''nsfm'')) else f2)
      in if jcontains conf ''deputies'' then setFlag f3 Deputies (toBool (jvalue conf ''deputies''))
         else f3)"
  "title (history (setSessionConfig P conf changedBy s)) =
     (if jcontains conf ''title'' then take 100 (toQString (jvalue conf ''title''))
      else title (history s))"
  "maxUsers (history (setSessionConfig P conf changedBy s)) =
     (if jcontains conf ''maxUserCount'' then toInt (jvalue conf ''maxUserCount'')
      else maxUsers (history s))"
  "autoResetThreshold (history (setSessionConfig P conf changedBy s)) =
     (if jcontains conf ''resetThreshold''
      then nat (toInt (jvalue conf ''resetThreshold'') mod 4294967296)
      else autoResetThreshold (history s))"
  "passwordHash (history (setSessionConfig P conf changedBy s)) =
     (if jcontains conf ''password'' then hash P (toQString (jvalue conf ''password''))
      else passwordHash (history s))"
  "opwordHash (history (setSessionConfig P conf changedBy s)) =
     (if jcontains conf ''opword'' then hash P (toQString (jvalue conf ''opword''))
      else opwordHash (history s))"
  using setSessionConfig_view[of P conf changedBy s]
  by (simp_all only: confView_def prod.inject)

text \<open>
  Claim C9. \<^verbatim>\<open>setSessionConfig\<close> keeps the value of every configuration field whose key
  the patch does not have. \<open>authOnly = true\<close> is stored when the acting client is null
  or authenticated and otherwise leaves the flag as it was; \<open>authOnly = false\<close> is
  stored whoever acts.
\<close>

theorem setSessionConfig_sparse:
  "(\<not> jcontains conf ''closed'' \<longrightarrow> closed (setSessionConfig P conf changedBy s) = closed s) \<and>
   (\<not> jcontains conf ''authOnly'' \<longrightarrow>
      authOnly (setSessionConfig P conf changedBy s) = authOnly s) \<and>
   (\<not> jcontains conf ''persistent'' \<longrightarrow>
      (Persistent \<in> flags (history (setSessionConfig P conf changedBy s)))
        = (Persistent \<in> flags (history s))) \<and>
   (\<not> jcontains conf ''title'' \<longrightarrow>
      title (history (setSessionConfig P conf changedBy s)) = title (history s)) \<and>
   (\<not> jcontains conf ''maxUserCount'' \<longrightarrow>
      maxUsers (history (setSessionConfig P conf changedBy s)) = maxUsers (history s)) \<and>
   (\<not> jcontains conf ''resetThreshold'' \<longrightarrow>
      autoResetThreshold (history (setSessionConfig P conf changedBy s))
        = autoResetThreshold (history s)) \<and>
   (\<not> jcontains conf ''password'' \<longrightarrow>
      passwordHash (history (setSessionConfig P conf changedBy s)) = passwordHash (history s)) \<and>
   (\<not> jcontains conf ''opword'' \<longrightarrow>
      opwordHash (history (setSessionConfig P conf changedBy s)) = opwordHash (history s)) \<and>
   (\<not> jcontains conf ''preserveChat'' \<longrightarrow>
      (PreserveChat \<in> flags (history (setSessionConfig P conf changedBy s)))
        = (PreserveChat \<in> flags (history s))) \<and>
   (\<not> jcontains conf ''nsfm'' \<longrightarrow>
      (Nsfm \<in> flags (history (setSessionConfig P conf changedBy s))) = (Nsfm \<in> flags (history s))) \<and>
   (\<not> jcontains conf ''deputies'' \<longrightarrow>
      (Deputies \<in> flags (history (setSessionConfig P conf changedBy s)))
        = (Deputies \<in> flags (history s))) \<and>
   (jcontains conf ''authOnly'' \<and> toBool (jvalue conf ''authOnly'') \<longrightarrow>
      authOnly (setSessionConfig P conf changedBy s) =
        (case changedBy of
           None \<Rightarrow> True
         | Some c \<Rightarrow> if isAuthenticated c then True else authOnly s)) \<and>
   (jcontains conf ''authOnly'' \<and> \<not> toBool (jvalue conf ''authOnly'') \<longrightarrow>
      authOnly (setSessionConfig P conf changedBy s) = False)"
proof (intro conjI impI)
  show "\<not> jcontains conf ''persistent'' \<Longrightarrow>
      (Persistent \<in> flags (history (setSessionConfig P conf changedBy s)))
        = (Persistent \<in> flags (history s))"
    by (simp add: setSessionConfig_fields(3) setFlag_def Let_def)
  show "\<not> jcontains conf ''preserveChat'' \<Longrightarrow>
      (PreserveChat \<in> flags (history (setSessionConfig P conf changedBy s)))
        = (PreserveChat \<in> flags (history s))"
    by (simp add: setSessionConfig_fields(3) setFlag_def Let_def)
  show "\<not> jcontains conf ''nsfm'' \<Longrightarrow>
      (Nsfm \<in> flags (history (setSessionConfig P conf changedBy s))) = (Nsfm \<in> flags (history s))"
    by (simp add: setSessionConfig_fields(3) setFlag_def Let_def)
  show "\<not> jcontains conf ''deputies'' \<Longrightarrow>
      (Deputies \<in> flags (history (setSessionConfig P conf changedBy s)))
        = (Deputies \<in> flags (history s))"
    by (simp add: setSessionConfig_fields(3) setFlag_def Let_def)
  show "jcontains conf ''authOnly'' \<and> toBool (jvalue conf ''authOnly'') \<Longrightarrow>
      authOnly (setSessionConfig P conf changedBy s) =
        (case changedBy of
           None \<Rightarrow> True
         | Some c \<Rightarrow> if isAuthenticated c then True else authOnly s)"
    by (simp add: setSessionConfig_fields(2) split: option.splits)
qed (simp_all add: setSessionConfig_fields(1,2,4,5,6,7,8))

theorem setSessionConfig_sparse_witness:
  "closed (setSessionConfig sampleExt [(''title'', JStr ''Evening''), (''authOnly'', JBool True)]
             (Some (sampleClient 2 ''bob'' False)) sampleSession) = False \<and>
   authOnly (setSessionConfig sampleExt [(''title'', JStr ''Evening''), (''authOnly'', JBool True)]
             (Some (sampleClient 2 ''bob'' False)) sampleSession) = False \<and>
   authOnly (setSessionConfig sampleExt [(''title'', JStr ''Evening''), (''authOnly'', JBool True)]
             None sampleSession) = True \<and>
   authOnly (setSessionConfig sampleExt [(''authOnly'', JBool False)]
             (Some (sampleClient 2 ''bob'' False)) (sampleSession\<lparr>authOnly := True\<rparr>)) = False \<and>
   maxUsers (history (setSessionConfig sampleExt
             [(''title'', JStr ''Evening''), (''authOnly'', JBool True)]
             (Some (sampleClient 2 ''bob'' False)) sampleSession)) = 25"
  using setSessionConfig_sparse
          [of "[(''title'', JStr ''Evening''), (''authOnly'', JBool True)]" sampleExt
              "Some (sampleClient 2 ''bob'' False)" sampleSession]
        setSessionConfig_sparse
          [of "[(''title'', JStr ''Evening''), (''authOnly'', JBool True)]" sampleExt
              None sampleSession]
        setSessionConfig_sparse
          [of "[(''authOnly'', JBool False)]" sampleExt
              "Some (sampleClient 2 ''bob'' False)" "sampleSession\<lparr>authOnly := True\<rparr>"]
  by (simp add: jcontains_def jvalue_def sample_defs)

text \<open>
  Claim C10. After \<^verbatim>\<open>setSessionConfig\<close> with a title in the patch, the title of the
  session is the first 100 characters of the given one, so it is at most 100 long.
\<close>

theorem setSessionConfig_title:
  assumes "jcontains conf ''title''"
  shows "title (history (setSessionConfig P conf changedBy s))
           = take 100 (toQString (jvalue conf ''title''))
         \<and> length (title (history (setSessionConfig P conf changedBy s))) \<le> 100"
  using assms by (simp add: setSessionConfig_fields(4))

theorem setSessionConfig_title_witness:
  "jcontains [(''title'', JStr (replicate 120 (CHR ''x'')))] ''title'' \<and>
   title (history (setSessionConfig sampleExt [(''title'', JStr (replicate 120 (CHR ''x'')))]
      None sampleSession)) = replicate 100 (CHR ''x'')"
  using setSessionConfig_title
          [of "[(''title'', JStr (replicate 120 (CHR ''x'')))]" sampleExt None sampleSession]
  by (simp add: jcontains_def jvalue_def)

subsection \<open>Catching up with the history\<close>

lemma setContextId_body [simp]: "body (setContextId c m) = body m"
  by (simp add: setContextId_def)

lemma setContextId_idem [simp]: "setContextId c (setContextId c m) = setContextId c m"
  by (simp add: setContextId_def)

lemma sendNextHistoryBatch_flow:
  "(i \<ge> length (clients s) \<or> \<not> attached (clients s ! i) \<or> isUploading (clients s ! i)
      \<or> state s \<noteq> Running \<longrightarrow> sendNextHistoryBatch i s = s) \<and>
   (i < length (clients s) \<and> attached (clients s ! i) \<and> \<not> isUploading (clients s ! i)
      \<and> state s = Running \<longrightarrow>
      historyPosition (clients (sendNextHistoryBatch i s) ! i)
        = snd (getBatch (history s) (historyPosition (clients s ! i))) \<and>
      sendqueue (clients (sendNextHistoryBatch i s) ! i)
        = sendqueue (clients s ! i) @ fst (getBatch (history s) (historyPosition (clients s ! i))) \<and>
      (\<forall>j < length (clients s). j \<noteq> i \<longrightarrow>
         clients (sendNextHistoryBatch i s) ! j = clients s ! j) \<and>
      messages (history (sendNextHistoryBatch i s)) = messages (history s))"
  by (auto simp: sendNextHistoryBatch_def historyCacheCleanup_def cleanupBatches_def
        getBatch_def Let_def)

lemma nth_update_any: "j < length xs \<Longrightarrow> (xs[i := x]) ! j = (if i = j then x else xs ! j)"
  by (cases "i = j") auto

lemma findIndex_map: "findIndex (\<lambda>c. f c = x) xs = findIndex (\<lambda>y. y = x) (map f xs)"
  by (induction xs) simp_all

lemma follows_getClientById:
  assumes "follows s s'"
  shows "getClientById s' x = getClientById s x"
proof -
  have "map cid (clients s') = map cid (clients s)"
    using assms by (intro nth_equalityI) (simp_all add: follows_def)
  then show ?thesis
    by (simp add: getClientById_def findIndex_map[where f = cid])
qed

lemma follows_refl [simp]: "follows s s"
  by (simp add: follows_def)

lemma follows_trans [trans]:
  assumes "follows s s1" and "follows s1 s2"
  shows "follows s s2"
proof -
  have g: "getClientById s1 (initUser s1) = getClientById s (initUser s)"
    using follows_getClientById[OF assms(1)] assms(1) by (simp add: follows_def)
  have l: "length (clients s1) = length (clients s)" using assms(1) by (simp add: follows_def)
  have "cid (clients s2 ! i) = cid (clients s ! i) \<and>
        prefix (sendqueue (clients s ! i)) (sendqueue (clients s2 ! i)) \<and>
        (historyPosition (clients s2 ! i) = historyPosition (clients s ! i) \<or>
         state s = Initialization \<and> getClientById s (initUser s) = Some i)"
    if "i < length (clients s)" for i
  proof -
    have a: "cid (clients s1 ! i) = cid (clients s ! i)"
      "prefix (sendqueue (clients s ! i)) (sendqueue (clients s1 ! i))"
      "historyPosition (clients s1 ! i) = historyPosition (clients s ! i) \<or>
          state s = Initialization \<and> getClientById s (initUser s) = Some i"
      using assms(1) that by (simp_all add: follows_def)
    have b: "cid (clients s2 ! i) = cid (clients s1 ! i)"
      "prefix (sendqueue (clients s1 ! i)) (sendqueue (clients s2 ! i))"
      "historyPosition (clients s2 ! i) = historyPosition (clients s1 ! i) \<or>
          state s1 = Initialization \<and> getClientById s1 (initUser s1) = Some i"
      using assms(2) that l by (simp_all add: follows_def)
    have st: "state s1 = state s" using assms(1) by (simp add: follows_def)
    show ?thesis
      using a b g st prefix_order.trans[OF a(2) b(2)] by auto
  qed
  then show ?thesis
    using assms by (simp add: follows_def)
qed

lemma follows_sendTo [simp]: "follows s (sendTo i m s)"
  by (auto simp: follows_def sendTo_def sendDirectMessage_def nth_update_any)

lemma follows_directToAll [simp]: "follows s (directToAll m s)"
  by (simp add: follows_def directToAll_def sendDirectMessage_def)

lemma follows_messageAll [simp]: "follows s (messageAll t a s)"
  by (simp add: messageAll_def)

lemma follows_others:
  "state s' = state s \<Longrightarrow> initUser s' = initUser s \<Longrightarrow> clients s' = clients s \<Longrightarrow> follows s s'"
  by (simp add: follows_def)

lemma follows_Session_log [simp]: "follows s (Session_log l s)"
proof -
  have "follows s (s\<lparr>serverlog := serverlog s @ [l\<lparr>inSession := True\<rparr>]\<rparr>)"
    by (simp add: follows_others)
  then have "follows s (directToAll m (s\<lparr>serverlog := serverlog s @ [l\<lparr>inSession := True\<rparr>]\<rparr>))" for m
    by (rule follows_trans[OF _ follows_directToAll])
  then show ?thesis
    by (simp add: Session_log_def Let_def follows_others)
qed

lemma follows_Client_log [simp]: "follows s (Client_log c l s)"
  by (simp add: Client_log_def Let_def follows_others)

lemma follows_historyLimitReached [simp]: "follows s (historyLimitReached m s)"
  unfolding historyLimitReached_def Let_def
  by (rule follows_trans[OF follows_messageAll follows_messageAll])

lemma follows_notifyOrigin [simp]: "follows s (notifyOrigin P m s)"
  using notifyOrigin_cases[of P m s]
  by (auto simp: follows_def nth_list_update split: if_splits)

lemma follows_mirrorToRecorder [simp]: "follows s (mirrorToRecorder P m s)"
  by (auto simp: mirrorToRecorder_def follows_others split: option.splits)

lemma follows_requestAutoReset [simp]: "follows s (requestAutoReset P s)"
proof (cases "effectiveAutoResetThreshold P (history s) > 0
         \<and> autoResetRequestStatus s = NotSent
         \<and> sizeInBytes (history s) > effectiveAutoResetThreshold P (history s)")
  case False
  then show ?thesis by (auto simp: requestAutoReset_def)
next
  case True
  let ?s2 = "directToAll (sizeLimitWarning P (Session_log (Log Info Status ''Autoreset threshold reached.'') s))
               (Session_log (Log Info Status ''Autoreset threshold reached.'') s)"
  have a: "follows s ?s2"
    by (rule follows_trans[OF follows_Session_log follows_directToAll])
  have b: "follows ?s2 (?s2\<lparr>clients :=
                     map (\<lambda>c. if isOperator c then sendDirectMessage (resetRequest True ?s2) c else c)
                       (clients ?s2)\<rparr>)"
    by (simp add: follows_def sendDirectMessage_def)
  have c: "follows s ((?s2\<lparr>clients :=
                     map (\<lambda>c. if isOperator c then sendDirectMessage (resetRequest True ?s2) c else c)
                       (clients ?s2)\<rparr>)\<lparr>autoResetRequestStatus := Queried\<rparr>)"
    by (rule follows_trans[OF follows_trans[OF a b]]) (simp add: follows_others)
  show ?thesis using True c by (simp add: requestAutoReset_def Let_def)
qed

lemma follows_statusUpdate [simp]: "follows s (statusUpdate s)"
proof -
  have "follows s (directToAll m s) \<Longrightarrow> follows s ((directToAll m s)\<lparr>lastStatusUpdate := t\<rparr>)" for m t
    by (simp add: follows_def)
  then show ?thesis by (simp add: statusUpdate_def)
qed

lemma follows_addToHistory [simp]: "follows s (addToHistory P m s)"
proof (cases "addMessage P m (history s)")
  case None
  then show ?thesis by (simp add: addToHistory_def)
next
  case (Some h)
  have 0: "follows s (s\<lparr>history := h\<rparr>)" by (simp add: follows_others)
  show ?thesis using Some
    apply (simp add: addToHistory_def)
    apply (intro impI)
    apply (rule follows_trans[OF 0])
    apply (rule follows_trans[OF follows_notifyOrigin])
    apply (rule follows_trans[OF follows_mirrorToRecorder])
    apply (rule follows_trans[OF follows_requestAutoReset])
    apply (rule follows_statusUpdate)
    done
qed

lemma addToHistory_frame [simp]:
  "state (addToHistory P m s) = state s"
  "initUser (addToHistory P m s) = initUser s"
  "resetstream (addToHistory P m s) = resetstream s"
  "resetstreamsize (addToHistory P m s) = resetstreamsize s"
  "recordingFile (addToHistory P m s) = recordingFile s"
  "length (clients (addToHistory P m s)) = length (clients s)"
     apply (simp_all add: addToHistory_def historyLimitReached_def statusUpdate_def
        requestAutoReset_def mirrorToRecorder_def notifyOrigin_def send_defs
        split: option.splits)
  done

lemma follows_history [simp]: "follows s (s\<lparr>history := h\<rparr>)"
  by (simp add: follows_others)

lemma follows_setOpFlag [simp]: "follows s (setOpFlag k op changedBy s)"
proof -
  define c where "c = (clients s ! k)\<lparr>opFlag := op\<rparr>"
  define s1 where "s1 = s\<lparr>clients := (clients s)[k := c]\<rparr>"
  define wording where "wording = (if op then ''Made operator by '' @ changedBy
                 else ''Operator status revoked by '' @ changedBy)"
  define s3 where "s3 = messageAll (username c @ '' '' @ wording) False
                          (Client_log c (Log Info (if op then Op else Deop) wording) s1)"
  have "follows s s1"
    by (auto simp: follows_def nth_update_any s1_def c_def)
  also have "follows s1 s3"
    unfolding s3_def by (rule follows_trans[OF follows_Client_log follows_messageAll])
  finally have 3: "follows s s3" .
  then have 4: "follows s (s3\<lparr>history := h\<rparr>)" for h
    by (rule follows_trans) simp
  have "setOpFlag k op changedBy s =
          (if isAuthenticated c \<and> \<not> isModerator c
           then s3\<lparr>history := setAuthenticatedOperator (username c) op (history s3)\<rparr> else s3)"
    by (simp add: setOpFlag_def Let_def s3_def wording_def s1_def c_def)
  then show ?thesis using 3 4 by simp
qed

lemma follows_setTrustedFlag [simp]: "follows s (setTrustedFlag k t changedBy s)"
proof -
  define c where "c = (clients s ! k)\<lparr>isTrusted := t\<rparr>"
  define s1 where "s1 = s\<lparr>clients := (clients s)[k := c]\<rparr>"
  define wording where "wording = (if t then ''Trusted by '' @ changedBy else ''Untrusted by '' @ changedBy)"
  define s3 where "s3 = messageAll (username c @ '' '' @ wording) False
                          (Client_log c (Log Info (if t then Trust else Untrust) wording) s1)"
  have "follows s s1"
    by (auto simp: follows_def nth_update_any s1_def c_def)
  also have "follows s1 s3"
    unfolding s3_def by (rule follows_trans[OF follows_Client_log follows_messageAll])
  finally have 3: "follows s s3" .
  then have 4: "follows s (s3\<lparr>history := h\<rparr>)" for h
    by (rule follows_trans) simp
  have "setTrustedFlag k t changedBy s =
          (if isAuthenticated c
           then s3\<lparr>history := setAuthenticatedTrust (username c) t (history s3)\<rparr> else s3)"
    by (simp add: setTrustedFlag_def Let_def s3_def wording_def s1_def c_def)
  then show ?thesis using 3 4 by simp
qed

lemma follows_foldl:
  assumes "\<And>x k. follows (fst x) (fst (f x k))"
  shows "follows (fst x) (fst (foldl f x ks))"
proof (induction ks arbitrary: x)
  case Nil
  show ?case by simp
next
  case (Cons k ks)
  show ?case using follows_trans[OF assms[of x k] Cons[of "f x k"]] by simp
qed

lemma follows_changeOpStatusLoop: "follows s (fst (changeOpStatusLoop i op changedBy s))"
proof -
  have "follows (fst x) (fst (changeOpStatusStep i op changedBy x k))" for x k
    by (cases x) (simp add: changeOpStatusStep_def Let_def)
  from follows_foldl[of "changeOpStatusStep i op changedBy" "(s, [], None)", OF this]
  show ?thesis by (simp add: changeOpStatusLoop_def)
qed

lemma follows_grantOpStatus [simp]: "follows s (grantOpStatus P i changedBy s)"
proof (cases "changeOpStatusLoop i True changedBy s")
  case (fields s1 ids kick)
  then have "follows s s1" using follows_changeOpStatusLoop[of s i True changedBy] by simp
  then have "follows s (addToHistory P (Msg 0 (SessionOwner ids)) s1)"
    by (rule follows_trans) simp
  then show ?thesis
    using fields by (simp add: grantOpStatus_def)
qed

lemma follows_changeTrustedStatus [simp]: "follows s (changeTrustedStatus P i t changedBy s)"
proof -
  have "follows (fst x) (fst (changeTrustedStatusStep i t changedBy x k))" for x k
    by (cases x) (simp add: changeTrustedStatusStep_def Let_def)
  from follows_foldl[of "changeTrustedStatusStep i t changedBy" "(s, [])", OF this]
  have 1: "follows s (fst (foldl (changeTrustedStatusStep i t changedBy) (s, []) [0..<length (clients s)]))"
    by simp
  obtain s1 ids where 2: "foldl (changeTrustedStatusStep i t changedBy) (s, []) [0..<length (clients s)] = (s1, ids)"
    by (cases "foldl (changeTrustedStatusStep i t changedBy) (s, []) [0..<length (clients s)]")
  have "follows s (addToHistory P (Msg 0 (TrustedUsers ids)) s1)"
    using 1 unfolding 2 by (simp add: follows_trans[OF _ follows_addToHistory])
  then show ?thesis
    unfolding changeTrustedStatus_def 2 by simp
qed

lemma follows_if: "follows s a \<Longrightarrow> follows s b \<Longrightarrow> follows s (if c then a else b)"
  by simp

lemma follows_ensureOperatorExists [simp]: "follows s (ensureOperatorExists P s)"
  by (simp add: ensureOperatorExists_def split: list.splits)

lemma follows_lists [simp]:
  "follows s (sendUpdatedAnnouncementList s)"
  "follows s (sendUpdatedBanlist P s)"
  "follows s (sendUpdatedMuteList s)"
  by (simp_all add: sendUpdatedAnnouncementList_def sendUpdatedMuteList_def)
     (simp add: follows_def sendUpdatedBanlist_def sendDirectMessage_def)

lemma foldl_sendTo:
  "i < length (clients s) \<Longrightarrow>
   foldl (\<lambda>s' l. sendTo i (f l) s') s ls =
     s\<lparr>clients := (clients s)[i := (clients s ! i)\<lparr>sendqueue := sendqueue (clients s ! i) @ map f ls\<rparr>]\<rparr>"
proof (induction ls arbitrary: s)
  case Nil
  then show ?case by simp
next
  case (Cons l ls)
  have "i < length (clients (sendTo i (f l) s))" using Cons.prems by (simp add: sendTo_def)
  from Cons.IH[OF this] show ?case
    using Cons.prems by (simp add: sendTo_def sendDirectMessage_def)
qed

lemma follows_at:
  assumes "follows s s'" and "i < length (clients s)"
  shows "length (clients s') = length (clients s)"
    and "prefix (sendqueue (clients s ! i)) (sendqueue (clients s' ! i))"
    and "state s \<noteq> Initialization \<or> getClientById s (initUser s) \<noteq> Some i
           \<Longrightarrow> historyPosition (clients s' ! i) = historyPosition (clients s ! i)"
    and "state s' = state s"
  using assms by (auto simp: follows_def)

lemma findIndex_append:
  "findIndex p (xs @ [x]) =
     (case findIndex p xs of Some k \<Rightarrow> Some k | None \<Rightarrow> if p x then Some (length xs) else None)"
  by (induction xs) (simp_all split: option.splits)

lemma findIndex_less: "findIndex p xs = Some k \<Longrightarrow> k < length xs"
  by (induction xs arbitrary: k) (auto split: if_splits)

lemma joinUser_catchup:
  "length (clients (joinUser P usr False s)) = Suc (length (clients s)) \<and>
   prefix (sendqueue usr
           @ map makeLogMessage
               (filter (\<lambda>l. inSession l \<and> levelNum (level l) \<le> levelNum Info) (serverlog s))
           @ [catchupMessage (lastIndex (history s) - firstIndex (history s))])
     (sendqueue (clients (joinUser P usr False s) ! length (clients s))) \<and>
   historyPosition
     (clients (tellCatchup False (length (clients s))
                 (sendSessionLog (length (clients s)) (attachUser usr s))) ! length (clients s)) = - 1 \<and>
   (state s \<noteq> Initialization \<or> cid usr \<noteq> initUser s \<or> getClientById s (initUser s) \<noteq> None \<longrightarrow>
      historyPosition (clients (joinUser P usr False s) ! length (clients s)) = - 1)"
proof -
  let ?i = "length (clients s)"
  define logs where "logs = filter (\<lambda>l. inSession l \<and> levelNum (level l) \<le> levelNum Info) (serverlog s)"
  define s4 where "s4 = sendWelcome ?i (tellCatchup False ?i (sendSessionLog ?i (attachUser usr s)))"
  define s' where "s' = joinUser P usr False s"
  have i1: "?i < length (clients (attachUser usr s))" by (simp add: attachUser_def)
  have ha: "history (attachUser usr s) = history s" by (simp add: attachUser_def)
  have c2: "clients (sendSessionLog ?i (attachUser usr s)) = clients s @
              [usr\<lparr>attached := True, historyPosition := - 1,
                   sendqueue := sendqueue usr @ map makeLogMessage logs\<rparr>]"
       "history (sendSessionLog ?i (attachUser usr s)) = history s"
       "state (sendSessionLog ?i (attachUser usr s)) = state s"
       "initUser (sendSessionLog ?i (attachUser usr s)) = initUser s"
    unfolding sendSessionLog_def foldl_sendTo[OF i1]
    by (simp_all add: attachUser_def logs_def)
  have c3: "clients (tellCatchup False ?i (sendSessionLog ?i (attachUser usr s))) = clients s @
              [usr\<lparr>attached := True, historyPosition := - 1,
                   sendqueue := sendqueue usr @ map makeLogMessage logs
                      @ [catchupMessage (lastIndex (history s) - firstIndex (history s))]\<rparr>]"
       "state (tellCatchup False ?i (sendSessionLog ?i (attachUser usr s))) = state s"
       "initUser (tellCatchup False ?i (sendSessionLog ?i (attachUser usr s))) = initUser s"
    by (simp_all add: tellCatchup_def sendTo_def sendDirectMessage_def c2 ha)
  have c4: "state s4 = state s" "length (clients s4) = Suc ?i"
    "prefix (sendqueue usr @ map makeLogMessage logs
                      @ [catchupMessage (lastIndex (history s) - firstIndex (history s))])
       (sendqueue (clients s4 ! ?i))"
    "historyPosition (clients s4 ! ?i) = - 1"
    "initUser s4 = initUser s"
    "map cid (clients s4) = map cid (clients s) @ [cid usr]"
    unfolding s4_def
    by (simp_all add: sendWelcome_def sendTo_def sendDirectMessage_def c3 list_update_append)
  have eq: "s' = logJoined ?i
           (rememberId ?i
             (sendUpdatedMuteList
               (sendUpdatedBanlist P
                 (sendUpdatedAnnouncementList
                   (ensureOperatorExists P
                     (restoreTrusted P ?i
                       (restoreOperator P ?i
                         (announceJoin P ?i s4))))))))"
    by (simp add: s'_def joinUser_def s4_def Let_def)
  have "follows s4 (announceJoin P ?i s4)" by (simp add: announceJoin_def)
  also have "follows \<dots> (restoreOperator P ?i \<dots>)" by (simp add: restoreOperator_def)
  also have "follows \<dots> (restoreTrusted P ?i \<dots>)" by (simp add: restoreTrusted_def)
  also have "follows \<dots> (ensureOperatorExists P \<dots>)" by simp
  also have "follows \<dots> (sendUpdatedAnnouncementList \<dots>)" by simp
  also have "follows \<dots> (sendUpdatedBanlist P \<dots>)" by simp
  also have "follows \<dots> (sendUpdatedMuteList \<dots>)" by simp
  also have "follows \<dots> (rememberId ?i \<dots>)" by (simp add: rememberId_def)
  also have "follows \<dots> (logJoined ?i \<dots>)" by (simp add: logJoined_def)
  finally have f: "follows s4 s'" unfolding eq .
  have i: "?i < length (clients s4)" using c4(2) by simp
  note fa = follows_at[OF f i]
  have 1: "length (clients s') = Suc ?i" using fa(1) c4(2) by simp
  have 2: "prefix (sendqueue usr @ map makeLogMessage logs
                      @ [catchupMessage (lastIndex (history s) - firstIndex (history s))])
       (sendqueue (clients s' ! ?i))"
    using fa(2) c4(3) by (rule prefix_order.trans[rotated])
  have g: "getClientById s4 (initUser s4) =
             (case getClientById s (initUser s) of
                Some k \<Rightarrow> Some k
              | None \<Rightarrow> if cid usr = initUser s then Some ?i else None)"
    using c4(5,6) findIndex_append[of "\<lambda>y. y = initUser s" "map cid (clients s)" "cid usr"]
    by (simp add: getClientById_def findIndex_map[where f = cid] split: option.splits)
  have 3: "historyPosition (clients s' ! ?i) = - 1"
    if "state s \<noteq> Initialization \<or> cid usr \<noteq> initUser s \<or> getClientById s (initUser s) \<noteq> None"
  proof -
    have "state s4 \<noteq> Initialization \<or> getClientById s4 (initUser s4) \<noteq> Some ?i"
      using that c4(1) findIndex_less[of "\<lambda>c. cid c = initUser s" "clients s"]
      unfolding g by (auto simp: getClientById_def split: option.splits)
    from fa(3)[OF this] show ?thesis using c4(4) by simp
  qed
  have 4: "historyPosition
     (clients (tellCatchup False ?i (sendSessionLog ?i (attachUser usr s))) ! ?i) = - 1"
    by (simp add: c3)
  show ?thesis using 1 2 3 4 unfolding s'_def logs_def by simp
qed

text \<open>
  Claim C6. \<^verbatim>\<open>Client::sendNextHistoryBatch\<close> changes nothing when the client has no
  session, is still uploading, or the session is not Running. Otherwise the client's cursor
  becomes the position that \<open>getBatch\<close> returns for the old cursor, exactly that batch is
  added to what the client is sent, and the other clients and the history's messages are
  as before. A client that joins without hosting is sent, before anything else of the
  session but the session's log, a catch-up message whose count is the history's
  \<open>lastIndex - firstIndex\<close>, and its cursor is \<open>-1\<close> when the message is sent. The cursor
  is still \<open>-1\<close> when the join is over, unless the session is being initialized and the
  new client is the only one with the init user's id, whose cursor follows the history.
\<close>

theorem catchup_delivery:
  "(i \<ge> length (clients s) \<or> \<not> attached (clients s ! i) \<or> isUploading (clients s ! i)
      \<or> state s \<noteq> Running \<longrightarrow> sendNextHistoryBatch i s = s) \<and>
   (i < length (clients s) \<and> attached (clients s ! i) \<and> \<not> isUploading (clients s ! i)
      \<and> state s = Running \<longrightarrow>
      historyPosition (clients (sendNextHistoryBatch i s) ! i)
        = snd (getBatch (history s) (historyPosition (clients s ! i))) \<and>
      sendqueue (clients (sendNextHistoryBatch i s) ! i)
        = sendqueue (clients s ! i) @ fst (getBatch (history s) (historyPosition (clients s ! i))) \<and>
      (\<forall>j < length (clients s). j \<noteq> i \<longrightarrow>
         clients (sendNextHistoryBatch i s) ! j = clients s ! j) \<and>
      messages (history (sendNextHistoryBatch i s)) = messages (history s)) \<and>
   length (clients (joinUser P usr False t)) = Suc (length (clients t)) \<and>
   prefix (sendqueue usr
           @ map makeLogMessage
               (filter (\<lambda>l. inSession l \<and> levelNum (level l) \<le> levelNum Info) (serverlog t))
           @ [catchupMessage (lastIndex (history t) - firstIndex (history t))])
     (sendqueue (clients (joinUser P usr False t) ! length (clients t))) \<and>
   historyPosition
     (clients (tellCatchup False (length (clients t))
                 (sendSessionLog (length (clients t)) (attachUser usr t))) ! length (clients t)) = - 1 \<and>
   (state t \<noteq> Initialization \<or> cid usr \<noteq> initUser t \<or> getClientById t (initUser t) \<noteq> None \<longrightarrow>
      historyPosition (clients (joinUser P usr False t) ! length (clients t)) = - 1)"
  using sendNextHistoryBatch_flow[where i = i and s = s]
        joinUser_catchup[where P = P and usr = usr and s = t] by blast

text \<open>The second client of \<open>sampleSession\<close> fetches its batch; a third client joins.\<close>

theorem catchup_delivery_witness:
  "sendNextHistoryBatch 1 (sampleSession\<lparr>state := Reset\<rparr>) = sampleSession\<lparr>state := Reset\<rparr> \<and>
   historyPosition (clients (sendNextHistoryBatch 1 sampleSession) ! 1) = 0 \<and>
   sendqueue (clients (sendNextHistoryBatch 1 sampleSession) ! 1) = [Msg 1 (Other 130 ''line'')] \<and>
   prefix [catchupMessage 0]
     (sendqueue (clients (joinUser sampleExt (sampleClient 3 ''carol'' False) False sampleSession) ! 2)) \<and>
   historyPosition (clients (joinUser sampleExt (sampleClient 3 ''carol'' False) False sampleSession) ! 2)
     = - 1"
proof -
  have a: "state (sampleSession\<lparr>state := Reset\<rparr>) \<noteq> Running" by simp
  have b: "1 < length (clients sampleSession)" "attached (clients sampleSession ! 1)"
    "\<not> isUploading (clients sampleSession ! 1)" "state sampleSession = Running"
    "getBatch (history sampleSession) (historyPosition (clients sampleSession ! 1))
       = ([Msg 1 (Other 130 ''line'')], 0)"
    "sendqueue (clients sampleSession ! 1) = []"
    "state sampleSession \<noteq> Initialization"
    "length (clients sampleSession) = 2"
    "sendqueue (sampleClient 3 ''carol'' False)
           @ map makeLogMessage
               (filter (\<lambda>l. inSession l \<and> levelNum (level l) \<le> levelNum Info) (serverlog sampleSession))
           @ [catchupMessage (lastIndex (history sampleSession) - firstIndex (history sampleSession))]
      = [catchupMessage 0]"
    by code_simp+
  note t1 = catchup_delivery[where i = 1 and s = "sampleSession\<lparr>state := Reset\<rparr>"
              and P = sampleExt and usr = "sampleClient 3 ''carol'' False" and t = sampleSession]
  note t2 = catchup_delivery[where i = 1 and s = sampleSession
              and P = sampleExt and usr = "sampleClient 3 ''carol'' False" and t = sampleSession]
  have 1: "sendNextHistoryBatch 1 (sampleSession\<lparr>state := Reset\<rparr>) = sampleSession\<lparr>state := Reset\<rparr>"
    using t1 a by blast
  have 2: "historyPosition (clients (sendNextHistoryBatch 1 sampleSession) ! 1) = 0"
          "sendqueue (clients (sendNextHistoryBatch 1 sampleSession) ! 1) = [Msg 1 (Other 130 ''line'')]"
    using t2 b(1-6) by simp_all
  have 3: "prefix [catchupMessage 0]
     (sendqueue (clients (joinUser sampleExt (sampleClient 3 ''carol'' False) False sampleSession) ! 2))"
    "historyPosition (clients (joinUser sampleExt (sampleClient 3 ''carol'' False) False sampleSession) ! 2)
     = - 1"
    using t2 b(7) unfolding b(8,9) by simp_all
  show ?thesis using 1 2 3 by simp
qed

subsection \<open>Committing a reset\<close>



lemma requestAutoReset_history [simp]: "history (requestAutoReset P s) = history s"
  by (simp add: requestAutoReset_def Let_def directToAll_def)


lemma enqueueHeldCommands_locked:
  "state s \<noteq> Running \<Longrightarrow> foldl (enqueueHeldCommands P) s ks = s"
  by (induction ks) (simp_all add: enqueueHeldCommands_def isHoldLocked_def)

lemma restartRecording_frame [simp]:
  "state (restartRecording P s) = state s"
  "initUser (restartRecording P s) = initUser s"
  "resetstream (restartRecording P s) = resetstream s"
  "resetstreamsize (restartRecording P s) = resetstreamsize s"
  "clients (restartRecording P s) = clients s"
  "history (restartRecording P s) = history s"
  by (simp_all add: restartRecording_def Let_def)

lemma sendUpdatedSessionProperties_frame [simp]:
  "state (sendUpdatedSessionProperties P s) = state s"
  "initUser (sendUpdatedSessionProperties P s) = initUser s"
  "resetstream (sendUpdatedSessionProperties P s) = resetstream s"
  "resetstreamsize (sendUpdatedSessionProperties P s) = resetstreamsize s"
  "recordingFile (sendUpdatedSessionProperties P s) = recordingFile s"
  "length (clients (sendUpdatedSessionProperties P s)) = length (clients s)"
  "follows s (sendUpdatedSessionProperties P s)"
  by (simp_all add: sendUpdatedSessionProperties_def)




lemmas session_defs = switchState_def commitReset_def resetSnapshot_def reset_def
  sendUpdatedSessionProperties_def sessionConf_def restartRecording_def enqueueHeldCommands_def
  isHoldLocked_def Client_log_def joinMessage_def catchupMessage_def messageAll_def
  getClientById_def isOperator_def historyLimitReached_def



subsection \<open>Context ids\<close>




subsection \<open>The operators of a session\<close>

lemma confKept_refl [simp]: "confKept s s"
  by (simp add: confKept_def)

lemma confKept_trans: "confKept s s1 \<Longrightarrow> confKept s1 s2 \<Longrightarrow> confKept s s2"
  by (simp add: confKept_def)

lemma opsGrow_refl [simp]: "opsGrow s s"
  by (simp add: opsGrow_def)

lemma opsGrow_trans [trans]: "opsGrow s s1 \<Longrightarrow> opsGrow s1 s2 \<Longrightarrow> opsGrow s s2"
  by (simp add: opsGrow_def confKept_def)

lemma opsGrow_hasOperator:
  assumes "opsGrow s s'" and "hasOperator s"
  shows "hasOperator s'"
proof (cases "clients s = []")
  case True
  then have "clients s' = []" using assms(1) by (simp add: opsGrow_def)
  then show ?thesis by (simp add: hasOperator_def)
next
  case False
  then obtain c where "c \<in> set (clients s)" "isOperator c"
    using assms(2) by (auto simp: hasOperator_def list_ex_iff)
  then obtain j where j: "j < length (clients s)" "isOperator (clients s ! j)"
    by (auto simp: in_set_conv_nth)
  then have "j < length (clients s')" "isOperator (clients s' ! j)"
    using assms(1) by (simp_all add: opsGrow_def)
  then have "\<exists>c \<in> set (clients s'). isOperator c"
    using nth_mem by blast
  then show ?thesis by (simp add: hasOperator_def list_ex_iff)
qed

lemma opsGrow_noBypass: "opsGrow s s' \<Longrightarrow> noBypass s' = noBypass s"
  by (simp add: opsGrow_def confKept_def noBypass_def)

lemma opsGrow_same:
  "history s' = history s \<Longrightarrow> map isOperator (clients s') = map isOperator (clients s)
   \<Longrightarrow> opsGrow s s'"
  unfolding opsGrow_def confKept_def
  by (metis length_map nth_map)

lemma opsGrow_history:
  "opwordHash h = opwordHash (history s) \<Longrightarrow>
   authenticatedOperators h = authenticatedOperators (history s) \<Longrightarrow> opsGrow s (s\<lparr>history := h\<rparr>)"
  by (simp add: opsGrow_def confKept_def)

lemma opsGrow_directToAll [simp]: "opsGrow s (directToAll m s)"
  by (rule opsGrow_same) (simp_all add: directToAll_def sendDirectMessage_def isOperator_def)

lemma opsGrow_sendTo [simp]: "opsGrow s (sendTo i m s)"
  by (auto simp: opsGrow_def confKept_def sendTo_def sendDirectMessage_def isOperator_def
        nth_update_any)

lemma opsGrow_messageAll [simp]: "opsGrow s (messageAll t a s)"
  by (simp add: messageAll_def)

lemma opsGrow_Session_log [simp]: "opsGrow s (Session_log l s)"
proof -
  have 1: "opsGrow s (s\<lparr>serverlog := x\<rparr>)" for x by (simp add: opsGrow_def confKept_def)
  have "opsGrow s (directToAll m (s\<lparr>serverlog := x\<rparr>))" for m x
    by (rule opsGrow_trans[OF 1 opsGrow_directToAll])
  then show ?thesis
    using 1 by (simp add: Session_log_def Let_def)
qed

lemma opsGrow_Client_log [simp]: "opsGrow s (Client_log c l s)"
proof -
  have "opsGrow s (s\<lparr>serverlog := x\<rparr>)" for x by (simp add: opsGrow_def confKept_def)
  then show ?thesis by (simp add: Client_log_def Let_def)
qed

lemma opsGrow_addToHistory [simp]: "opsGrow s (addToHistory P m s)"
proof (cases "state s = Shutdown \<or> addMessage P m (history s) = None")
  case True
  have "opsGrow s (historyLimitReached m s)"
    unfolding historyLimitReached_def Let_def
    by (rule opsGrow_trans[OF opsGrow_messageAll opsGrow_messageAll])
  then show ?thesis using True by (auto simp: addToHistory_def)
next
  case False
  then obtain h where h: "addMessage P m (history s) = Some h" "state s \<noteq> Shutdown" by auto
  define s1 where "s1 = s\<lparr>history := h\<rparr>"
  have 1: "opsGrow s s1"
    unfolding s1_def using h(1)
    by (intro opsGrow_history) (auto simp: addMessage_def split: if_splits)
  have 2: "opsGrow s1 (notifyOrigin P m s1)"
    using notifyOrigin_cases[of P m s1]
    by (auto simp: opsGrow_def confKept_def isOperator_def nth_update_any split: if_splits)
  have 3: "opsGrow x (mirrorToRecorder P m x)" for x
    by (auto simp: mirrorToRecorder_def opsGrow_def confKept_def split: option.splits)
  have 4: "opsGrow x (requestAutoReset P x)" for x
  proof (cases "effectiveAutoResetThreshold P (history x) > 0
         \<and> autoResetRequestStatus x = NotSent
         \<and> sizeInBytes (history x) > effectiveAutoResetThreshold P (history x)")
    case False
    then show ?thesis by (auto simp: requestAutoReset_def)
  next
    case True
    define x1 where "x1 = Session_log (Log Info Status ''Autoreset threshold reached.'') x"
    define x2 where "x2 = directToAll (sizeLimitWarning P x1) x1"
    define x3 where "x3 = x2\<lparr>clients :=
                     map (\<lambda>c. if isOperator c then sendDirectMessage (resetRequest True x2) c else c)
                       (clients x2)\<rparr>"
    have "opsGrow x x1" by (simp add: x1_def)
    also have "opsGrow x1 x2" by (simp add: x2_def)
    also have "opsGrow x2 x3"
      unfolding x3_def by (rule opsGrow_same) (simp_all add: sendDirectMessage_def isOperator_def)
    also have "opsGrow x3 (x3\<lparr>autoResetRequestStatus := Queried\<rparr>)"
      by (simp add: opsGrow_def confKept_def)
    finally have g: "opsGrow x (x3\<lparr>autoResetRequestStatus := Queried\<rparr>)" .
    have "requestAutoReset P x = x3\<lparr>autoResetRequestStatus := Queried\<rparr>"
      using True by (simp add: requestAutoReset_def Let_def x3_def x2_def x1_def)
    then show ?thesis using g by simp
  qed
  have 5: "opsGrow x (statusUpdate x)" for x
  proof -
    have "opsGrow x (directToAll r x)" for r by simp
    also have "opsGrow (directToAll r x) ((directToAll r x)\<lparr>lastStatusUpdate := q\<rparr>)" for r q
      by (simp add: opsGrow_def confKept_def)
    finally have "opsGrow x ((directToAll r x)\<lparr>lastStatusUpdate := q\<rparr>)" for r q .
    then show ?thesis
      by (simp add: statusUpdate_def)
  qed
  have "addToHistory P m s = statusUpdate (requestAutoReset P (mirrorToRecorder P m (notifyOrigin P m s1)))"
    using h by (simp add: addToHistory_def s1_def)
  then show ?thesis
    using opsGrow_trans[OF 1 opsGrow_trans[OF 2 opsGrow_trans[OF 3 opsGrow_trans[OF 4 5]]]]
    by simp
qed

lemma opsGrow_foldl:
  assumes "\<And>x k. opsGrow (fst x) (fst (f x k))"
  shows "opsGrow (fst x) (fst (foldl f x ks))"
proof (induction ks arbitrary: x)
  case Nil
  show ?case by simp
next
  case (Cons k ks)
  show ?case using opsGrow_trans[OF assms[of x k] Cons[of "f x k"]] by simp
qed

lemma setOpFlag_eq:
  "\<exists>s3. setOpFlag k op changedBy s =
          s3\<lparr>history := (if isAuthenticated (clients s ! k) \<and> \<not> isModerator (clients s ! k)
                          then setAuthenticatedOperator (username (clients s ! k)) op (history s3)
                          else history s3)\<rparr>
        \<and> opsGrow (s\<lparr>clients := (clients s)[k := (clients s ! k)\<lparr>opFlag := op\<rparr>]\<rparr>) s3"
proof -
  define c where "c = (clients s ! k)\<lparr>opFlag := op\<rparr>"
  define s1 where "s1 = s\<lparr>clients := (clients s)[k := c]\<rparr>"
  define wording where "wording = (if op then ''Made operator by '' @ changedBy
                 else ''Operator status revoked by '' @ changedBy)"
  define s3 where "s3 = messageAll (username c @ '' '' @ wording) False
                          (Client_log c (Log Info (if op then Op else Deop) wording) s1)"
  have "opsGrow s1 s3"
    unfolding s3_def by (rule opsGrow_trans[OF opsGrow_Client_log opsGrow_messageAll])
  moreover have "setOpFlag k op changedBy s =
          s3\<lparr>history := (if isAuthenticated (clients s ! k) \<and> \<not> isModerator (clients s ! k)
                          then setAuthenticatedOperator (username (clients s ! k)) op (history s3)
                          else history s3)\<rparr>"
    by (simp add: setOpFlag_def Let_def s3_def wording_def s1_def c_def)
  ultimately show ?thesis unfolding s1_def c_def by blast
qed

lemma opsGrow_setOpFlag_True: "opsGrow s (setOpFlag k True changedBy s)"
proof -
  obtain s3 where e: "setOpFlag k True changedBy s =
          s3\<lparr>history := (if isAuthenticated (clients s ! k) \<and> \<not> isModerator (clients s ! k)
                          then setAuthenticatedOperator (username (clients s ! k)) True (history s3)
                          else history s3)\<rparr>"
     and g: "opsGrow (s\<lparr>clients := (clients s)[k := (clients s ! k)\<lparr>opFlag := True\<rparr>]\<rparr>) s3"
    using setOpFlag_eq[of k True changedBy s] by blast
  have "opsGrow s (s\<lparr>clients := (clients s)[k := (clients s ! k)\<lparr>opFlag := True\<rparr>]\<rparr>)"
    by (auto simp: opsGrow_def confKept_def isOperator_def nth_update_any)
  also note g
  also have "opsGrow s3 (setOpFlag k True changedBy s)"
    unfolding e by (rule opsGrow_history) (simp_all add: setAuthenticatedOperator_def)
  finally show ?thesis .
qed

lemma setOpFlag_True_sets:
  assumes "k < length (clients s)"
  shows "isOperator (clients (setOpFlag k True changedBy s) ! k)"
proof -
  obtain s3 where e: "setOpFlag k True changedBy s =
          s3\<lparr>history := (if isAuthenticated (clients s ! k) \<and> \<not> isModerator (clients s ! k)
                          then setAuthenticatedOperator (username (clients s ! k)) True (history s3)
                          else history s3)\<rparr>"
     and g: "opsGrow (s\<lparr>clients := (clients s)[k := (clients s ! k)\<lparr>opFlag := True\<rparr>]\<rparr>) s3"
    using setOpFlag_eq[of k True changedBy s] by blast
  have "isOperator (clients s3 ! k)"
    using g assms by (simp add: opsGrow_def isOperator_def)
  then show ?thesis unfolding e by simp
qed

lemma opsGrow_changeOpStatusStep:
  "opsGrow (fst x) (fst (changeOpStatusStep i True changedBy x k))"
  by (cases x) (simp add: changeOpStatusStep_def Let_def opsGrow_setOpFlag_True)

lemma changeOpStatusStep_no_kick:
  "snd (snd x) = None \<Longrightarrow> snd (snd (changeOpStatusStep i True changedBy x k)) = None"
  by (cases x) (simp add: changeOpStatusStep_def Let_def)

lemma changeOpStatusLoop_no_kick:
  "snd (snd (changeOpStatusLoop i True changedBy s)) = None"
proof -
  have "snd (snd x) = None \<Longrightarrow> snd (snd (foldl (changeOpStatusStep i True changedBy) x ks)) = None"
    for x ks
    by (induction ks arbitrary: x) (simp_all add: changeOpStatusStep_no_kick)
  then show ?thesis by (simp add: changeOpStatusLoop_def)
qed

lemma changeOpStatus_grant:
  "changeOpStatus P i True changedBy s = Some (grantOpStatus P i changedBy s)"
  using changeOpStatusLoop_no_kick[of i changedBy s]
  by (cases "changeOpStatusLoop i True changedBy s")
     (simp add: changeOpStatus_def grantOpStatus_def)

lemma opsGrow_changeOpStatusLoop:
  "opsGrow s (fst (changeOpStatusLoop i True changedBy s))"
  using opsGrow_foldl[of "changeOpStatusStep i True changedBy" "(s, [], None)", OF opsGrow_changeOpStatusStep]
  by (simp add: changeOpStatusLoop_def)

lemma opsGrow_grantOpStatus [simp]: "opsGrow s (grantOpStatus P i changedBy s)"
proof (cases "changeOpStatusLoop i True changedBy s")
  case (fields s1 ids kick)
  then have "opsGrow s s1" using opsGrow_changeOpStatusLoop[of s i changedBy] by simp
  also have "opsGrow s1 (addToHistory P (Msg 0 (SessionOwner ids)) s1)" by simp
  finally show ?thesis using fields by (simp add: grantOpStatus_def)
qed

lemma changeOpStatusLoop_first:
  assumes "clients s \<noteq> []" and "cid (clients s ! 0) = i"
  shows "isOperator (clients (fst (changeOpStatusLoop i True changedBy s)) ! 0)"
proof -
  obtain n where n: "length (clients s) = Suc n" using assms(1) by (cases "clients s") auto
  have up: "[0..<Suc n] = 0 # [1..<Suc n]" by (simp add: upt_rec)
  define x1 where "x1 = changeOpStatusStep i True changedBy (s, [], None) 0"
  have 1: "isOperator (clients (fst x1) ! 0)"
    using assms n setOpFlag_True_sets[of 0 s changedBy]
    by (auto simp: x1_def changeOpStatusStep_def Let_def)
  have len: "0 < length (clients (fst x1))"
    using opsGrow_changeOpStatusStep[of "(s, [], None)" i changedBy 0] n
    by (simp add: x1_def opsGrow_def)
  have "opsGrow (fst x1) (fst (foldl (changeOpStatusStep i True changedBy) x1 [1..<Suc n]))"
    by (rule opsGrow_foldl[OF opsGrow_changeOpStatusStep])
  then have 2: "isOperator (clients (fst (foldl (changeOpStatusStep i True changedBy) x1 [1..<Suc n])) ! 0)"
    using 1 len by (simp add: opsGrow_def)
  have "changeOpStatusLoop i True changedBy s
          = foldl (changeOpStatusStep i True changedBy) x1 [1..<Suc n]"
    unfolding changeOpStatusLoop_def n up x1_def by (simp only: foldl_Cons)
  then show ?thesis using 2 by (simp only:)
qed

lemma grantOpStatus_first:
  assumes "clients s \<noteq> []" and "cid (clients s ! 0) = i"
  shows "hasOperator (grantOpStatus P i changedBy s)"
proof (cases "changeOpStatusLoop i True changedBy s")
  case (fields s1 ids kick)
  have 1: "isOperator (clients s1 ! 0)"
    using changeOpStatusLoop_first[OF assms, of changedBy] fields by simp
  have len: "0 < length (clients s1)"
    using opsGrow_changeOpStatusLoop[of s i changedBy] fields assms(1) by (simp add: opsGrow_def)
  then have "hasOperator s1"
    using 1 nth_mem[OF len] by (auto simp: hasOperator_def list_ex_iff)
  then have "hasOperator (addToHistory P (Msg 0 (SessionOwner ids)) s1)"
    by (rule opsGrow_hasOperator[OF opsGrow_addToHistory])
  then show ?thesis using fields by (simp add: grantOpStatus_def)
qed

lemma ensureOperatorExists_establishes:
  assumes "noBypass s"
  shows "hasOperator (ensureOperatorExists P s)"
proof (cases "list_ex isOperator (clients s) \<or> clients s = []")
  case True
  then show ?thesis
    using assms by (auto simp: ensureOperatorExists_def noBypass_def hasOperator_def)
next
  case False
  then obtain c cs where c: "clients s = c # cs" by (cases "clients s") auto
  have "hasOperator (grantOpStatus P (cid c) ''the server'' s)"
    by (rule grantOpStatus_first) (simp_all add: c)
  then show ?thesis
    using assms False c by (simp add: ensureOperatorExists_def noBypass_def)
qed

lemma opsGrow_ensureOperatorExists [simp]: "opsGrow s (ensureOperatorExists P s)"
  by (simp add: ensureOperatorExists_def split: list.splits)

declare confKept_trans [trans]

lemma confKept_opsGrow: "opsGrow s s' \<Longrightarrow> confKept s s'"
  by (simp add: opsGrow_def)

lemma confKept_noBypass: "confKept s s' \<Longrightarrow> noBypass s' = noBypass s"
  by (simp add: confKept_def noBypass_def)

lemma confKept_history: "history s' = history s \<Longrightarrow> confKept s s'"
  by (simp add: confKept_def)

lemma opsGrow_setTrustedFlag: "opsGrow s (setTrustedFlag k t changedBy s)"
proof -
  define c where "c = (clients s ! k)\<lparr>isTrusted := t\<rparr>"
  define s1 where "s1 = s\<lparr>clients := (clients s)[k := c]\<rparr>"
  define wording where "wording = (if t then ''Trusted by '' @ changedBy else ''Untrusted by '' @ changedBy)"
  define s3 where "s3 = messageAll (username c @ '' '' @ wording) False
                          (Client_log c (Log Info (if t then Trust else Untrust) wording) s1)"
  have "opsGrow s s1"
    by (auto simp: opsGrow_def confKept_def isOperator_def nth_update_any s1_def c_def)
  also have "opsGrow s1 s3"
    unfolding s3_def by (rule opsGrow_trans[OF opsGrow_Client_log opsGrow_messageAll])
  finally have 3: "opsGrow s s3" .
  have 4: "opsGrow s3 (s3\<lparr>history := setAuthenticatedTrust n t (history s3)\<rparr>)" for n
    by (rule opsGrow_history) (simp_all add: setAuthenticatedTrust_def)
  have "setTrustedFlag k t changedBy s =
          (if isAuthenticated c
           then s3\<lparr>history := setAuthenticatedTrust (username c) t (history s3)\<rparr> else s3)"
    by (simp add: setTrustedFlag_def Let_def s3_def wording_def s1_def c_def)
  then show ?thesis using 3 opsGrow_trans[OF 3 4] by simp
qed

lemma opsGrow_changeTrustedStatus [simp]: "opsGrow s (changeTrustedStatus P i t changedBy s)"
proof -
  have "opsGrow (fst x) (fst (changeTrustedStatusStep i t changedBy x k))" for x k
    by (cases x) (simp add: changeTrustedStatusStep_def Let_def opsGrow_setTrustedFlag)
  from opsGrow_foldl[of "changeTrustedStatusStep i t changedBy" "(s, [])", OF this]
  have 1: "opsGrow s (fst (foldl (changeTrustedStatusStep i t changedBy) (s, []) [0..<length (clients s)]))"
    by simp
  obtain s1 ids where 2: "foldl (changeTrustedStatusStep i t changedBy) (s, []) [0..<length (clients s)] = (s1, ids)"
    by (cases "foldl (changeTrustedStatusStep i t changedBy) (s, []) [0..<length (clients s)]")
  have "opsGrow s (addToHistory P (Msg 0 (TrustedUsers ids)) s1)"
    using 1 unfolding 2 by (simp add: opsGrow_trans[OF _ opsGrow_addToHistory])
  then show ?thesis
    unfolding changeTrustedStatus_def 2 by simp
qed

lemma opsGrow_lists [simp]:
  "opsGrow s (sendUpdatedAnnouncementList s)"
  "opsGrow s (sendUpdatedBanlist P s)"
  "opsGrow s (sendUpdatedMuteList s)"
proof -
  show "opsGrow s (sendUpdatedAnnouncementList s)" by (simp add: sendUpdatedAnnouncementList_def)
  show "opsGrow s (sendUpdatedMuteList s)" by (simp add: sendUpdatedMuteList_def)
  show "opsGrow s (sendUpdatedBanlist P s)"
    unfolding sendUpdatedBanlist_def
    by (rule opsGrow_same) (simp_all add: sendDirectMessage_def isOperator_def)
qed

lemma history_sendSessionLog [simp]: "history (sendSessionLog i s) = history s"
proof -
  have "history (foldl (\<lambda>s' l. sendTo i (makeLogMessage l) s') x ls) = history x" for x ls
    by (induction ls arbitrary: x) (simp_all add: sendTo_def)
  then show ?thesis by (simp add: sendSessionLog_def)
qed

lemma joinUser_hasOperator:
  assumes "noBypass s"
  shows "hasOperator (joinUser P usr host s)"
proof -
  let ?i = "length (clients s)"
  define s4 where "s4 = sendWelcome ?i (tellCatchup host ?i (sendSessionLog ?i (attachUser usr s)))"
  define s7 where "s7 = restoreTrusted P ?i (restoreOperator P ?i (announceJoin P ?i s4))"
  define s8 where "s8 = ensureOperatorExists P s7"
  have h4: "history s4 = history s"
    by (simp add: s4_def sendWelcome_def tellCatchup_def attachUser_def sendTo_def)
  have "opsGrow s4 (announceJoin P ?i s4)" by (simp add: announceJoin_def)
  also have "opsGrow \<dots> (restoreOperator P ?i \<dots>)" by (simp add: restoreOperator_def)
  also have "opsGrow \<dots> (restoreTrusted P ?i \<dots>)" by (simp add: restoreTrusted_def)
  finally have "opsGrow s4 s7" unfolding s7_def .
  then have "noBypass s7"
    using assms h4 by (simp add: opsGrow_def confKept_def noBypass_def)
  then have 8: "hasOperator s8"
    unfolding s8_def by (rule ensureOperatorExists_establishes)
  have "opsGrow s8 (sendUpdatedAnnouncementList s8)" by simp
  also have "opsGrow \<dots> (sendUpdatedBanlist P \<dots>)" by simp
  also have "opsGrow \<dots> (sendUpdatedMuteList \<dots>)" by simp
  also have "opsGrow \<dots> (rememberId ?i \<dots>)"
    unfolding rememberId_def by (rule opsGrow_history) (simp_all add: setIdForName_def)
  also have "opsGrow \<dots> (logJoined ?i \<dots>)" by (simp add: logJoined_def)
  finally have "opsGrow s8 (joinUser P usr host s)"
    by (simp add: joinUser_def Let_def s8_def s7_def s4_def)
  then show ?thesis using 8 by (rule opsGrow_hasOperator)
qed

lemma switchState_Running_idle:
  assumes "resetstream s = []" and "switchState P Running s = Some s'"
  shows "clients s' = clients s \<and> confKept s s'"
proof -
  have st: "state s = Initialization \<or> state s = Reset"
    using assms(2) by (auto simp: switchState_def split: if_splits)
  define s1 where "s1 = (if recordingFile s \<noteq> [] then restartRecording P (s\<lparr>initUser := - 1\<rparr>)
                         else s\<lparr>initUser := - 1\<rparr>)"
  have s1: "state s1 = state s" "clients s1 = clients s" "history s1 = history s"
    by (simp_all add: s1_def)
  have "foldl (enqueueHeldCommands P) s1 ks = s1" for ks
    by (rule enqueueHeldCommands_locked) (use st s1 in auto)
  then have "s' = s1\<lparr>state := Running\<rparr>"
    using assms st by (auto simp: switchState_def Let_def s1_def)
  then show ?thesis using s1 by (simp add: confKept_def)
qed

lemma removeUser_hasOperator:
  assumes "noBypass s" and "hasOperator s" and "removeUser P i s = Some s'"
  shows "hasOperator s'"
proof (cases "i < length (clients s)")
  case False
  then show ?thesis using assms by (simp add: removeUser_def)
next
  case True
  define usr where "usr = clients s ! i"
  define s3 where "s3 = (Client_log usr (Log Info Leave ''Left session'')
                          (s\<lparr>clients := take i (clients s) @ drop (Suc i) (clients s)\<rparr>))
                        \<lparr>departed := departed (Client_log usr (Log Info Leave ''Left session'')
                          (s\<lparr>clients := take i (clients s) @ drop (Suc i) (clients s)\<rparr>))
                            @ [usr\<lparr>attached := False, historyPosition := - 1\<rparr>]\<rparr>"
  have c3: "confKept s s3"
  proof -
    have "confKept s (s\<lparr>clients := take i (clients s) @ drop (Suc i) (clients s)\<rparr>)"
      by (simp add: confKept_def)
    also have "confKept \<dots> (Client_log usr (Log Info Leave ''Left session'') \<dots>)"
      by (rule confKept_opsGrow) simp
    also have "confKept \<dots> s3"
      unfolding s3_def by (simp add: confKept_def)
    finally show ?thesis .
  qed
  define fin where "fin = (\<lambda>s4. historyCacheCleanup
        (let s7 = ensureOperatorExists P
                   ((addToHistory P (Msg (cid usr) UserLeave) s4)
                      \<lparr>history := reserveId (cid usr) (history (addToHistory P (Msg (cid usr) UserLeave) s4))\<rparr>)
         in if clients s7 = [] then setClosed P False s7 else s7))"
  have eq: "removeUser P i s =
              map_option fin (if cid usr = initUser s3 \<and> state s3 = Reset then abortReset P s3 else Some s3)"
    using True
    by (simp add: removeUser_def Let_def usr_def s3_def fin_def map_option_case split: option.splits)
  obtain s4 where s4: "(if cid usr = initUser s3 \<and> state s3 = Reset then abortReset P s3 else Some s3) = Some s4"
    and res: "s' = fin s4"
    using assms(3) unfolding eq by blast
  have c4: "confKept s3 s4"
  proof (cases "cid usr = initUser s3 \<and> state s3 = Reset")
    case False
    then show ?thesis using s4 by auto
  next
    case True
    then obtain s4' where 1: "switchState P Running (s3\<lparr>initUser := - 1, resetstream := [], resetstreamsize := 0\<rparr>) = Some s4'"
      and 2: "s4 = messageAll ''Session reset cancelled.'' True s4'"
      using s4 by (auto simp: abortReset_def)
    have "confKept (s3\<lparr>initUser := - 1, resetstream := [], resetstreamsize := 0\<rparr>) s4'"
      using switchState_Running_idle[OF _ 1] by simp
    then have "confKept s3 s4'" by (simp add: confKept_def)
    moreover have "confKept s4' s4" unfolding 2 by (rule confKept_opsGrow) simp
    ultimately show ?thesis by (rule confKept_trans)
  qed
  define s6 where "s6 = (addToHistory P (Msg (cid usr) UserLeave) s4)
                      \<lparr>history := reserveId (cid usr) (history (addToHistory P (Msg (cid usr) UserLeave) s4))\<rparr>"
  have "confKept s4 (addToHistory P (Msg (cid usr) UserLeave) s4)"
    by (rule confKept_opsGrow) simp
  moreover have "confKept (addToHistory P (Msg (cid usr) UserLeave) s4) s6"
    by (simp add: s6_def confKept_def reserveId_def)
  ultimately have "confKept s s6"
    using c3 c4 by (blast intro: confKept_trans)
  then have "noBypass s6" using assms(1) by (simp add: confKept_noBypass)
  then have 7: "hasOperator (ensureOperatorExists P s6)"
    by (rule ensureOperatorExists_establishes)
  define s8 where "s8 = (if clients (ensureOperatorExists P s6) = []
                         then setClosed P False (ensureOperatorExists P s6)
                         else ensureOperatorExists P s6)"
  have "opsGrow x (setClosed P b x)" for x b
  proof -
    have "opsGrow x (x\<lparr>closed := b\<rparr>)" by (simp add: opsGrow_def confKept_def)
    also have "opsGrow \<dots> (sendUpdatedSessionProperties P \<dots>)"
      by (simp add: sendUpdatedSessionProperties_def)
    finally show ?thesis by (simp add: setClosed_def)
  qed
  then have "opsGrow (ensureOperatorExists P s6) s8" by (simp add: s8_def)
  also have "opsGrow s8 (historyCacheCleanup s8)"
    unfolding historyCacheCleanup_def by (rule opsGrow_history) (simp_all add: cleanupBatches_def)
  finally have "opsGrow (ensureOperatorExists P s6) (historyCacheCleanup s8)" .
  moreover have "s' = historyCacheCleanup s8"
    unfolding res fin_def s8_def s6_def Let_def ..
  ultimately show ?thesis using 7 by (simp add: opsGrow_hasOperator)
qed

text \<open>
  Claim C2 at a session with no operator password and no promotion of authenticated
  users: the first client to join is made an operator, and the administrator's update
  \<open>{"op": false}\<close> of that client leaves the session with one connected client and no
  operator. \<^verbatim>\<open>Client::callJsonApi\<close> calls \<^verbatim>\<open>Session::changeOpStatus\<close> and nothing after
  it, where \<^verbatim>\<open>Session::joinUser\<close> and \<^verbatim>\<open>Session::removeUser\<close> end with
  \<^verbatim>\<open>ensureOperatorExists\<close>.
\<close>

theorem callJsonApi_deop_leaves_no_operator:
  "opwordHash (history emptySession) = [] \<and> \<not> authenticatedOperators (history emptySession) \<and>
   map isOperator (clients (joinUser sampleExt (sampleClient 1 ''alice'' False) False emptySession))
     = [True] \<and>
   map_option (\<lambda>r. (fst r, map isOperator (clients (snd r)),
                    opwordHash (history (snd r)), authenticatedOperators (history (snd r))))
     (Client_callJsonApi sampleExt Update [] [(''op'', JBool False)] 0
        (joinUser sampleExt (sampleClient 1 ''alice'' False) False emptySession))
     = Some (Ok, [False], [], False)"
  by code_simp

end
